theory Spec2Isabelle
  imports Complex_Main
begin

section \<open>The photo booth's world: configuration, collaborators, effects\<close>

text \<open>
  The program is \<^verbatim>\<open>camera.py\<close>, a sequential script over a camera driver, a GPIO
  driver, an image library and the file system. Its functions are embedded as state
  transformers over a \<open>world\<close> that holds what the collaborators remember (the clock, the
  edge detection armed on each pin, the folders that exist, the lists the program shares
  by reference) and the trace of every call the program makes to a collaborator. What a
  collaborator answers is read from an immutable \<open>env\<close>. An exception is the left
  injection of a sum; the world reached when it was raised is kept beside it.

  Time is exact: the clock is a rational number of seconds and advances by the argument
  of each \<^verbatim>\<open>sleep\<close>, by nothing else.

  The calls that can fail here are \<^verbatim>\<open>Image.open\<close>, \<^verbatim>\<open>copy2\<close>, \<^verbatim>\<open>sleep\<close> (on a
  negative length) and \<^verbatim>\<open>GPIO.add_event_detect\<close> (on a pin that is armed already); the
  camera, the shell and \<^verbatim>\<open>os.makedirs\<close> are taken to do what they are asked. The
  assignment \<^verbatim>\<open>overlay_2.alpha = v\<close> is recorded as a call \<open>SetAlpha\<close> on the handle.
  What the script does at import time (reading the configuration, setting up the pins and
  the camera) and its last lines, which call \<^verbatim>\<open>main\<close> and clean up, are outside the
  embedding: it starts at \<^verbatim>\<open>main\<close> with a configuration that has every key.
\<close>

record config =
  REAL_PATH :: string
  CAMERA_BUTTON_PIN :: int
  EXIT_BUTTON_PIN :: int
  TOTAL_PICS :: int
  PREP_DELAY :: rat
  COUNTDOWN :: int
  PHOTO_W :: int
  PHOTO_H :: int
  SCREEN_W :: int
  SCREEN_H :: int
  DEBOUNCE_TIME :: rat
  TESTMODE_AUTOPRESS_BUTTON :: bool
  SAVE_RAW_IMAGES_FOLDER :: string
  PROPOSE_GPU_EFFECTS :: bool
  COPY_IMAGES_TO :: "string list"

text \<open>
  The answers of the collaborators. \<open>gpio_edges env pin\<close> lists the instants of the falling
  edges on \<open>pin\<close>, \<open>gpio_level env pin t\<close> is what \<^verbatim>\<open>GPIO.input(pin)\<close> reads at
  instant \<open>t\<close>. \<open>image_size env path\<close> is the size of the image \<^verbatim>\<open>Image.open(path)\<close>
  loads, \<open>None\<close> when it raises. \<open>float_hsize env basewidth w h\<close> stands for the floating
  point expression \<^verbatim>\<open>int(float(h) * (basewidth / float(w)))\<close> of \<^verbatim>\<open>overlay_image\<close>,
  and \<open>fmt_half env n\<close> for the text that \<^verbatim>\<open>format\<close> gives the float \<^verbatim>\<open>n/2\<close>.
  \<open>overlay_handle env k\<close> names the value \<^verbatim>\<open>CAMERA.add_overlay\<close> returns for the
  \<open>k\<close>-th overlay added. With picamera this is a renderer object (\<^verbatim>\<open>main\<close> sets its
  \<^verbatim>\<open>alpha\<close>), which passes a truth test and differs from \<^verbatim>\<open>-1\<close>: such a handle is
  named by an integer other than 0 and \<^verbatim>\<open>-1\<close>. The integers 0 and \<^verbatim>\<open>-1\<close> are the
  values that the tests of the program (\<^verbatim>\<open>if prev_overlay:\<close> and
  \<^verbatim>\<open>overlay_id != -1\<close>) single out. \<open>datetime_now env t\<close> is
  \<^verbatim>\<open>str(datetime.datetime.now())\<close> at instant \<open>t\<close>, and \<open>copy2_fails env src dst\<close>
  tells whether \<^verbatim>\<open>copy2(src, dst)\<close> raises.
\<close>

record env =
  gpio_edges :: "int \<Rightarrow> rat list"
  gpio_level :: "int \<Rightarrow> rat \<Rightarrow> int"
  image_size :: "string \<Rightarrow> (int \<times> int) option"
  float_hsize :: "int \<Rightarrow> int \<Rightarrow> int \<Rightarrow> int"
  fmt_half :: "int \<Rightarrow> string"
  overlay_handle :: "nat \<Rightarrow> int"
  datetime_now :: "rat \<Rightarrow> string"
  copy2_fails :: "string \<Rightarrow> string \<Rightarrow> bool"

datatype event =
    Print string
  | Sleep rat
  | Makedirs string
  | AddOverlay int string "int \<times> int" string "int \<times> int" int
  | RemoveOverlay int
  | SetAlpha int int
  | SetImageEffect string
  | SetAnnotateText string
  | StartPreview "int \<times> int"
  | Capture string
  | System string
  | Copy2 string string
  | AddEventDetect int
  | RemoveEventDetect int
  | EventDetected int bool
  | Input int int

text \<open>
  \<open>AddOverlay h path pad mode size layer\<close> is the call
  \<^verbatim>\<open>CAMERA.add_overlay(padded_img_data, size=size, layer=layer)\<close> that returned \<open>h\<close>,
  where the padded buffer has the dimensions \<open>pad\<close> and the pixel mode \<open>mode\<close> and holds
  the image loaded from \<open>path\<close>.
\<close>

datatype error =
    IOError string
  | ValueError
  | RuntimeError int
  | CopyError string string

record world =
  clock :: rat
  detect :: "int \<Rightarrow> rat option"
  existing :: "string set"
  overlays_added :: nat
  heap :: "nat \<Rightarrow> string list"
  next_ref :: nat
  trace :: "event list"

type_synonym 'a io = "world \<Rightarrow> (error + 'a) \<times> world"

definition ret :: "'a \<Rightarrow> 'a io" where
  "ret x w = (Inr x, w)"

definition raise :: "error \<Rightarrow> 'a io" where
  "raise e w = (Inl e, w)"

definition io_bind :: "'a io \<Rightarrow> ('a \<Rightarrow> 'b io) \<Rightarrow> 'b io" where
  "io_bind m f w = (case m w of (Inl e, w') \<Rightarrow> (Inl e, w') | (Inr x, w') \<Rightarrow> f x w')"

definition io_then :: "'a io \<Rightarrow> 'b io \<Rightarrow> 'b io" where
  "io_then m k = io_bind m (\<lambda>_. k)"

definition emit :: "event \<Rightarrow> unit io" where
  "emit e w = (Inr (), w\<lparr>trace := trace w @ [e]\<rparr>)"

text \<open>A \<^verbatim>\<open>for x in xs:\<close> loop whose body keeps no local state between rounds.\<close>

primrec for_each :: "'a list \<Rightarrow> ('a \<Rightarrow> unit io) \<Rightarrow> unit io" where
  "for_each [] body = ret ()"
| "for_each (x # xs) body = io_then (body x) (for_each xs body)"

subsection \<open>Python's library, as far as the program uses it\<close>

definition digit_char :: "nat \<Rightarrow> char" where
  "digit_char d = ''0123456789'' ! d"

fun str_nat :: "nat \<Rightarrow> string" where
  "str_nat n = (if n < 10 then [digit_char n] else str_nat (n div 10) @ [digit_char (n mod 10)])"

declare str_nat.simps [simp del]

definition str :: "int \<Rightarrow> string" where
  "str n = (if n < 0 then CHR ''-'' # str_nat (nat (- n)) else str_nat (nat n))"

text \<open>\<^verbatim>\<open>range(a, b)\<close> and \<^verbatim>\<open>range(a, b, -1)\<close>.\<close>

definition range_up :: "int \<Rightarrow> int \<Rightarrow> int list" where
  "range_up a b = [a..b - 1]"

definition range_down :: "int \<Rightarrow> int \<Rightarrow> int list" where
  "range_down a b = rev [b + 1..a]"

text \<open>\<^verbatim>\<open>s.split('.')[0]\<close> and \<^verbatim>\<open>s.replace(a, b)\<close> for one-character \<open>a\<close> and \<open>b\<close>.\<close>

definition split_first :: "char \<Rightarrow> string \<Rightarrow> string" where
  "split_first sep s = takeWhile (\<lambda>c. c \<noteq> sep) s"

definition replace :: "char \<Rightarrow> char \<Rightarrow> string \<Rightarrow> string" where
  "replace a b s = map (\<lambda>c. if c = a then b else c) s"

definition py_print :: "string \<Rightarrow> unit io" where
  "py_print s = emit (Print s)"

text \<open>\<^verbatim>\<open>time.sleep\<close> raises \<^verbatim>\<open>ValueError\<close> on a negative length.\<close>

definition sleep :: "rat \<Rightarrow> unit io" where
  "sleep d = (if d < 0 then raise ValueError
     else (\<lambda>w. (Inr (), w\<lparr>clock := clock w + d, trace := trace w @ [Sleep d]\<rparr>)))"

definition perf_counter :: "rat io" where
  "perf_counter w = (Inr (clock w), w)"

definition path_exists :: "string \<Rightarrow> bool io" where
  "path_exists p w = (Inr (p \<in> existing w), w)"

definition makedirs :: "string \<Rightarrow> unit io" where
  "makedirs p w = (Inr (), w\<lparr>existing := insert p (existing w), trace := trace w @ [Makedirs p]\<rparr>)"

definition os_system :: "string \<Rightarrow> unit io" where
  "os_system cmd = emit (System cmd)"

text \<open>
  \<^verbatim>\<open>copy2(src, dst)\<close>: the attempt is recorded whether it succeeds or not.
\<close>

definition copy2 :: "env \<Rightarrow> string \<Rightarrow> string \<Rightarrow> unit io" where
  "copy2 env src dst =
     io_then (emit (Copy2 src dst))
       (if copy2_fails env src dst then raise (CopyError src dst) else ret ())"

definition image_open :: "env \<Rightarrow> string \<Rightarrow> (int \<times> int) io" where
  "image_open env path =
     (case image_size env path of None \<Rightarrow> raise (IOError path) | Some sz \<Rightarrow> ret sz)"

text \<open>
  Lists shared by reference: \<^verbatim>\<open>photo_filenames = []\<close> allocates a cell of the heap,
  \<^verbatim>\<open>append\<close> updates it in place, and whoever holds the reference sees the update.
\<close>

definition new_list :: "nat io" where
  "new_list w = (Inr (next_ref w), w\<lparr>heap := (heap w)(next_ref w := []), next_ref := Suc (next_ref w)\<rparr>)"

definition list_append :: "nat \<Rightarrow> string \<Rightarrow> unit io" where
  "list_append r x w = (Inr (), w\<lparr>heap := (heap w)(r := heap w r @ [x])\<rparr>)"

definition list_read :: "nat \<Rightarrow> string list io" where
  "list_read r w = (Inr (heap w r), w)"

subsection \<open>The GPIO driver\<close>

text \<open>
  \<open>detect w pin = Some t\<close> says that edge detection is armed on \<open>pin\<close> and that its latch
  was last cleared at instant \<open>t\<close> (when it was armed, or at the last
  \<^verbatim>\<open>event_detected\<close>). \<^verbatim>\<open>event_detected\<close> answers whether a falling edge came since
  then and clears the latch. \<^verbatim>\<open>add_event_detect\<close> on a pin that is armed already
  raises \<^verbatim>\<open>RuntimeError\<close>.
\<close>

definition add_event_detect :: "int \<Rightarrow> unit io" where
  "add_event_detect pin w =
     (case detect w pin of
        Some _ \<Rightarrow> (Inl (RuntimeError pin), w)
      | None \<Rightarrow> (Inr (), w\<lparr>detect := (detect w)(pin \<mapsto> clock w), trace := trace w @ [AddEventDetect pin]\<rparr>))"

definition remove_event_detect :: "int \<Rightarrow> unit io" where
  "remove_event_detect pin w =
     (Inr (), w\<lparr>detect := (detect w)(pin := None), trace := trace w @ [RemoveEventDetect pin]\<rparr>)"

definition event_detected :: "env \<Rightarrow> int \<Rightarrow> bool io" where
  "event_detected env pin w =
     (case detect w pin of
        None \<Rightarrow> (Inr False, w\<lparr>trace := trace w @ [EventDetected pin False]\<rparr>)
      | Some t \<Rightarrow>
          (let b = list_ex (\<lambda>e. t < e \<and> e \<le> clock w) (gpio_edges env pin)
           in (Inr b, w\<lparr>detect := (detect w)(pin \<mapsto> clock w), trace := trace w @ [EventDetected pin b]\<rparr>)))"

definition gpio_input :: "env \<Rightarrow> int \<Rightarrow> int io" where
  "gpio_input env pin w =
     (let v = gpio_level env pin (clock w) in (Inr v, w\<lparr>trace := trace w @ [Input pin v]\<rparr>))"

section \<open>The program\<close>

subsection \<open>Helper functions\<close>

text \<open>
  \<^verbatim>\<open>health_test_required_folders\<close>: the loop over \<^verbatim>\<open>folders_list\<close>, with
  \<^verbatim>\<open>folders_checked\<close> carried from round to round.
\<close>

primrec health_test_loop :: "string list \<Rightarrow> string list \<Rightarrow> unit io" where
  "health_test_loop [] folders_checked = ret ()"
| "health_test_loop (folder # rest) folders_checked =
     io_bind
       (if folder \<notin> set folders_checked then ret (folders_checked @ [folder])
        else io_then
          (py_print (''ERROR: Cannot use same folder path ('' @ folder @ '') twice. Refer config file.''))
          (ret folders_checked))
       (\<lambda>folders_checked'.
          io_then
            (io_bind (path_exists folder) (\<lambda>ex.
               if \<not> ex then io_then (py_print (''Creating folder: '' @ folder)) (makedirs folder)
               else ret ()))
            (health_test_loop rest folders_checked'))"

definition health_test_required_folders :: "config \<Rightarrow> unit io" where
  "health_test_required_folders cfg =
     health_test_loop (SAVE_RAW_IMAGES_FOLDER cfg # COPY_IMAGES_TO cfg) []"

definition print_overlay :: "string \<Rightarrow> unit io" where
  "print_overlay string_to_print =
     io_then (py_print string_to_print) (emit (SetAnnotateText string_to_print))"

definition get_base_filename_for_images :: "config \<Rightarrow> env \<Rightarrow> string io" where
  "get_base_filename_for_images cfg env w =
     (let base_filename = split_first (CHR ''.'') (datetime_now env (clock w));
          base_filename = replace (CHR '' '') (CHR ''_'') base_filename;
          base_filename = replace (CHR '':'') (CHR ''-'') base_filename;
          base_filepath = SAVE_RAW_IMAGES_FOLDER cfg @ ''/'' @ base_filename
      in (Inr base_filepath, w))"

definition remove_overlay :: "int \<Rightarrow> unit io" where
  "remove_overlay overlay_id =
     (if overlay_id \<noteq> - 1 then emit (RemoveOverlay overlay_id) else ret ())"

definition add_overlay :: "env \<Rightarrow> string \<Rightarrow> int \<times> int \<Rightarrow> string \<Rightarrow> int \<times> int \<Rightarrow> int \<Rightarrow> int io" where
  "add_overlay env path pad mode sz layer w =
     (let h = overlay_handle env (overlays_added w)
      in (Inr h, w\<lparr>overlays_added := Suc (overlays_added w),
                    trace := trace w @ [AddOverlay h path pad mode sz layer]\<rparr>))"

definition overlay_image :: "config \<Rightarrow> env \<Rightarrow> string \<Rightarrow> int \<Rightarrow> string \<Rightarrow> int io" where
  "overlay_image cfg env image_path layer mode =
     io_bind (image_open env image_path) (\<lambda>img.
       let img = (if fst img > SCREEN_W cfg
                  then (let basewidth = SCREEN_W cfg;
                            hsize = float_hsize env basewidth (fst img) (snd img)
                        in (basewidth, hsize))
                  else img);
           pad = (((fst img + 31) div 32) * 32, ((snd img + 15) div 16) * 16)
       in add_overlay env image_path pad mode img layer)"

subsection \<open>Screens\<close>

definition prep_for_photo_screen :: "config \<Rightarrow> env \<Rightarrow> int \<Rightarrow> int io" where
  "prep_for_photo_screen cfg env photo_number =
     (let get_ready_image = REAL_PATH cfg @ ''/assets/get_ready_'' @ str photo_number @ ''.png''
      in overlay_image cfg env get_ready_image 5 ''RGB'')"

definition taking_photo :: "config \<Rightarrow> env \<Rightarrow> int \<Rightarrow> string \<Rightarrow> string io" where
  "taking_photo cfg env photo_number filename_prefix =
     (let filename = filename_prefix @ ''_'' @ str photo_number @ ''of'' @ str (TOTAL_PICS cfg) @ ''.jpg''
      in io_then
           (for_each (range_down (COUNTDOWN cfg) 0) (\<lambda>counter.
              let countdown_image = REAL_PATH cfg @ ''/assets/countdown_'' @ str counter @ ''.png''
              in io_bind (overlay_image cfg env countdown_image 5 ''RGBA'') (\<lambda>countdown_overlay.
                 io_then (py_print ('' ...'' @ str counter))
                (io_then (sleep 1)
                         (remove_overlay countdown_overlay)))))
          (io_then (sleep (1 / 2))
          (io_then (emit (SetAnnotateText []))
          (io_then (emit (Capture filename))
          (io_then (py_print (''Photo ('' @ str photo_number @ '') saved: '' @ filename))
                   (ret filename))))))"

text \<open>
  The slideshow loop of \<^verbatim>\<open>playback_screen\<close>, with \<^verbatim>\<open>prev_overlay\<close> carried from
  round to round; it returns the last \<^verbatim>\<open>prev_overlay\<close>. \<^verbatim>\<open>if prev_overlay:\<close> is
  Python's truth test, which of the values that name a handle only 0 fails.
\<close>

primrec playback_loop :: "config \<Rightarrow> env \<Rightarrow> string \<Rightarrow> string list \<Rightarrow> int \<Rightarrow> int io" where
  "playback_loop cfg env montage [] prev_overlay = ret prev_overlay"
| "playback_loop cfg env montage (filename # rest) prev_overlay =
     io_bind (overlay_image cfg env filename 6 ''RGB'') (\<lambda>this_overlay.
     io_then (if prev_overlay \<noteq> 0 then remove_overlay prev_overlay else ret ())
    (io_then (if filename = montage then sleep 6 else sleep 2)
             (playback_loop cfg env montage rest this_overlay)))"

text \<open>
  \<open>photo_filenames\<close> is the reference the caller passes: \<^verbatim>\<open>append\<close> changes the
  caller's list.
\<close>

definition playback_screen :: "config \<Rightarrow> env \<Rightarrow> string \<Rightarrow> nat \<Rightarrow> int io" where
  "playback_screen cfg env filename_prefix photo_filenames =
     io_then (py_print ''Processing...'')
    (let processing_image = REAL_PATH cfg @ ''/assets/processing.png''
     in io_bind (overlay_image cfg env processing_image 4 ''RGB'') (\<lambda>prev_overlay.
        let command = ''montage '' @ filename_prefix @ ''* -geometry '' @ fmt_half env (PHOTO_W cfg)
                        @ ''x'' @ fmt_half env (PHOTO_H cfg) @ '' '' @ filename_prefix @ ''.jpg''
        in io_then (os_system command)
          (let montage = filename_prefix @ ''.jpg''
           in io_then (list_append photo_filenames montage)
             (io_bind (list_read photo_filenames) (\<lambda>files.
              io_bind (playback_loop cfg env montage files prev_overlay) (\<lambda>prev_overlay.
              io_then (py_print ''All done!'')
             (let finished_image = REAL_PATH cfg @ ''/assets/all_done_delayed_upload.png''
              in io_bind (overlay_image cfg env finished_image 5 ''RGB'') (\<lambda>ol_done.
                 io_then (remove_overlay prev_overlay)
                         (ret ol_done)))))))))"

subsection \<open>The main loop\<close>

text \<open>
  The variables of \<^verbatim>\<open>main\<close> that live across rounds of \<^verbatim>\<open>while True\<close>, and how a
  round ends: \<^verbatim>\<open>return\<close>, \<^verbatim>\<open>break\<close>, or on to the next round.
\<close>

record loop_state =
  var_i :: int
  var_overlay_1 :: int
  var_overlay_2 :: int

datatype control = Return | Break | Continue

text \<open>
  The debounced poll of one pin, written out three times in \<^verbatim>\<open>main\<close> (lines 329-332
  and 371-374 for the capture button, 334-337 for the exit button): the result is
  \<^verbatim>\<open>None\<close> or \<^verbatim>\<open>True\<close>.
\<close>

definition poll_button :: "config \<Rightarrow> env \<Rightarrow> int \<Rightarrow> bool option io" where
  "poll_button cfg env pin =
     io_bind (event_detected env pin) (\<lambda>detected.
       if detected
       then io_then (sleep (DEBOUNCE_TIME cfg))
           (io_bind (gpio_input env pin) (\<lambda>v. if v = 0 then ret (Some True) else ret None))
       else ret None)"

text \<open>The preview window (lines 369-378): \<^verbatim>\<open>while (perf_counter() - tic < 2.0)\<close>.\<close>

function preview_window :: "config \<Rightarrow> env \<Rightarrow> rat \<Rightarrow> unit io" where
  "preview_window cfg env tic w =
     (if clock w - tic < 2 then
        (case poll_button cfg env (CAMERA_BUTTON_PIN cfg) w of
           (Inl e, w1) \<Rightarrow> (Inl e, w1)
         | (Inr photo_button_is_pressed, w1) \<Rightarrow>
             if photo_button_is_pressed = Some True then emit (SetImageEffect ''sketch'') w1
             else (case sleep (1 / 10) w1 of
                     (Inl e, w2) \<Rightarrow> (Inl e, w2)
                   | (Inr _, w2) \<Rightarrow> preview_window cfg env tic w2))
      else (Inr (), w))"
  by pat_completeness auto

termination preview_window
proof (relation "measure (\<lambda>(cfg, env, tic, w). nat \<lceil>(tic + 2 - clock w) * 10\<rceil>)", goal_cases)
  case 1
  then show ?case by simp
next
  case (2 cfg env tic w x1 w1 r x2 w2 u)
  have a: "clock w \<le> clock w1"
    using 2(2,3)
    by (auto simp: poll_button_def io_bind_def io_then_def event_detected_def sleep_def raise_def
          ret_def gpio_input_def Let_def split: option.splits if_splits sum.splits prod.splits)
  have b: "clock w2 = clock w1 + 1 / 10"
    using 2(5) by (auto simp: sleep_def raise_def)
  define x where "x = (tic + 2 - clock w) * 10"
  define y where "y = (tic + 2 - clock w2) * 10"
  have "y \<le> x - 1" using a b by (simp add: x_def y_def algebra_simps)
  then have "\<lceil>y\<rceil> \<le> \<lceil>x - 1\<rceil>" by (rule ceiling_mono)
  then have c: "\<lceil>y\<rceil> \<le> \<lceil>x\<rceil> - 1" by simp
  have "0 < x" using 2(1) by (simp add: x_def algebra_simps)
  then have d: "0 < \<lceil>x\<rceil>" by simp
  have "nat \<lceil>y\<rceil> < nat \<lceil>x\<rceil>" using c d by linarith
  then show ?case by (simp add: x_def y_def)
qed

declare preview_window.simps [simp del]

text \<open>
  The photo loop of \<^verbatim>\<open>main\<close> (lines 388-394); \<open>photo_filenames\<close> is the reference
  to the list allocated just before it.
\<close>

definition capture_photos :: "config \<Rightarrow> env \<Rightarrow> string \<Rightarrow> nat \<Rightarrow> unit io" where
  "capture_photos cfg env filename_prefix photo_filenames =
     for_each (range_up 1 (TOTAL_PICS cfg + 1)) (\<lambda>photo_number.
       io_bind (prep_for_photo_screen cfg env photo_number) (\<lambda>ol_id.
       io_then (sleep (PREP_DELAY cfg))
      (io_then (remove_overlay ol_id)
      (io_bind (taking_photo cfg env photo_number filename_prefix) (\<lambda>fname.
               list_append photo_filenames fname)))))"

text \<open>
  The copy loops of \<^verbatim>\<open>main\<close> (lines 401-404). The inner loop reads the list behind
  \<open>photo_filenames\<close> as it is when the loop starts.
\<close>

definition archive_photos :: "config \<Rightarrow> env \<Rightarrow> nat \<Rightarrow> unit io" where
  "archive_photos cfg env photo_filenames =
     for_each (COPY_IMAGES_TO cfg) (\<lambda>dest.
       io_bind (list_read photo_filenames) (\<lambda>files.
         for_each files (\<lambda>src.
           io_then (py_print (src @ '' -> '' @ dest))
                   (copy2 env src dest))))"

text \<open>
  One round of \<^verbatim>\<open>while True\<close> from \<^verbatim>\<open>Button has been pressed!\<close> on (lines 361-416).
\<close>

definition session :: "config \<Rightarrow> env \<Rightarrow> loop_state \<Rightarrow> (control \<times> loop_state) io" where
  "session cfg env st =
     io_then (py_print ''Button pressed! You folks are in for a treat.'')
    (io_then (remove_overlay (var_overlay_2 st))
    (io_then (remove_overlay (var_overlay_1 st))
    (io_then (emit (SetImageEffect ''none''))
    (io_then (if PROPOSE_GPU_EFFECTS cfg
              then io_bind perf_counter (\<lambda>tic. preview_window cfg env tic)
              else ret ())
    (io_then (remove_event_detect (CAMERA_BUTTON_PIN cfg))
    (io_then (remove_event_detect (EXIT_BUTTON_PIN cfg))
    (io_bind (get_base_filename_for_images cfg env) (\<lambda>filename_prefix.
     io_bind new_list (\<lambda>photo_filenames.
     io_then (capture_photos cfg env filename_prefix photo_filenames)
    (io_bind (playback_screen cfg env filename_prefix photo_filenames) (\<lambda>ol_done.
     io_then (sleep 2)
    (io_then (archive_photos cfg env photo_filenames)
    (if TESTMODE_AUTOPRESS_BUTTON cfg then ret (Break, st)
     else io_bind (overlay_image cfg env (REAL_PATH cfg @ ''/assets/intro_1.png'') 3 ''RGB'') (\<lambda>overlay_1.
          io_bind (overlay_image cfg env (REAL_PATH cfg @ ''/assets/intro_2.png'') 4 ''RGB'') (\<lambda>overlay_2.
          io_then (remove_overlay ol_done)
         (io_then (add_event_detect (CAMERA_BUTTON_PIN cfg))
         (io_then (add_event_detect (EXIT_BUTTON_PIN cfg))
         (io_then (py_print ''Press the button to take a photo'')
                  (ret (Continue, st\<lparr>var_overlay_1 := overlay_1, var_overlay_2 := overlay_2\<rparr>))))))))))))))))))))"

text \<open>
  The idle branch of a round (lines 346-358): blink the second intro overlay every
  \<^verbatim>\<open>blink_speed = 10\<close> rounds, sleep a tenth of a second, \<^verbatim>\<open>continue\<close>.
\<close>

definition blink :: "loop_state \<Rightarrow> (control \<times> loop_state) io" where
  "blink st =
     (let blink_speed = 10; i = var_i st + 1
      in io_bind
           (if i = blink_speed then io_then (emit (SetAlpha (var_overlay_2 st) 255)) (ret i)
            else if i = 2 * blink_speed then io_then (emit (SetAlpha (var_overlay_2 st) 0)) (ret 0)
            else ret i)
           (\<lambda>i. io_then (sleep (1 / 10)) (ret (Continue, st\<lparr>var_i := i\<rparr>))))"

text \<open>One round of \<^verbatim>\<open>while True\<close> (lines 326-416).\<close>

definition loop_iteration :: "config \<Rightarrow> env \<Rightarrow> loop_state \<Rightarrow> (control \<times> loop_state) io" where
  "loop_iteration cfg env st =
     io_bind (poll_button cfg env (CAMERA_BUTTON_PIN cfg)) (\<lambda>photo_button_is_pressed.
     io_bind (poll_button cfg env (EXIT_BUTTON_PIN cfg)) (\<lambda>exit_button_is_pressed.
       if exit_button_is_pressed \<noteq> None then ret (Return, st)
       else
         (let photo_button_is_pressed =
                (if TESTMODE_AUTOPRESS_BUTTON cfg then Some True else photo_button_is_pressed)
          in if photo_button_is_pressed = None then blink st
             else session cfg env st)))"

text \<open>
  \<^verbatim>\<open>while True\<close> may run for ever (nobody presses a button): \<open>None\<close> is "does not
  return".
\<close>

partial_function (option) main_loop ::
  "config \<Rightarrow> env \<Rightarrow> loop_state \<Rightarrow> world \<Rightarrow> ((error + unit) \<times> world) option" where
  "main_loop cfg env st w =
     (case loop_iteration cfg env st w of
        (Inl e, w') \<Rightarrow> Some (Inl e, w')
      | (Inr (c, st'), w') \<Rightarrow>
          (case c of
             Return \<Rightarrow> Some (Inr (), w')
           | Break \<Rightarrow> Some (Inr (), w')
           | Continue \<Rightarrow> main_loop cfg env st' w'))"

text \<open>\<^verbatim>\<open>main\<close> up to the loop (lines 297-323).\<close>

definition main_start :: "config \<Rightarrow> env \<Rightarrow> loop_state io" where
  "main_start cfg env =
     io_then (py_print ''Welcome to the photo booth!'')
    (io_then (py_print ''(version 2.2)'')
    (io_then (py_print '''')
    (io_then (py_print (''Press the '' @ [CHR 0x27] @ ''Take photo'' @ [CHR 0x27] @ '' button to take a photo''))
    (io_then (py_print (''Use [Ctrl] + ['' @ [CHR 0x5C] @ ''] to exit''))
    (io_then (py_print '''')
    (io_then (health_test_required_folders cfg)
    (io_bind (overlay_image cfg env (REAL_PATH cfg @ ''/assets/intro_1.png'') 3 ''RGB'') (\<lambda>overlay_1.
     io_bind (overlay_image cfg env (REAL_PATH cfg @ ''/assets/intro_2.png'') 4 ''RGB'') (\<lambda>overlay_2.
     io_then (emit (StartPreview (SCREEN_W cfg, SCREEN_H cfg)))
    (io_then (add_event_detect (CAMERA_BUTTON_PIN cfg))
    (io_then (add_event_detect (EXIT_BUTTON_PIN cfg))
             (ret \<lparr>var_i = 0, var_overlay_1 = overlay_1, var_overlay_2 = overlay_2\<rparr>))))))))))))"

definition main :: "config \<Rightarrow> env \<Rightarrow> world \<Rightarrow> ((error + unit) \<times> world) option" where
  "main cfg env w =
     (case main_start cfg env w of
        (Inl e, w') \<Rightarrow> Some (Inl e, w')
      | (Inr st, w') \<Rightarrow> main_loop cfg env st w')"

section \<open>Reading a trace\<close>

text \<open>
  The files a run writes are what it asks of the camera (\<open>captured\<close>), of the shell
  (\<open>commands\<close>) and of \<^verbatim>\<open>copy2\<close> (\<open>copies\<close>, as pairs of source and destination).
  The \<open>footprint\<close> of a world is these three readings of its trace together with the
  shared lists; a \<open>quiet\<close> action leaves the footprint as it is.
\<close>

primrec captured :: "event list \<Rightarrow> string list" where
  "captured [] = []"
| "captured (e # es) = (case e of Capture p \<Rightarrow> [p] | _ \<Rightarrow> []) @ captured es"

primrec commands :: "event list \<Rightarrow> string list" where
  "commands [] = []"
| "commands (e # es) = (case e of System c \<Rightarrow> [c] | _ \<Rightarrow> []) @ commands es"

primrec copies :: "event list \<Rightarrow> (string \<times> string) list" where
  "copies [] = []"
| "copies (e # es) = (case e of Copy2 s d \<Rightarrow> [(s, d)] | _ \<Rightarrow> []) @ copies es"

definition footprint ::
  "world \<Rightarrow> (nat \<Rightarrow> string list) \<times> nat \<times> string list \<times> string list \<times> (string \<times> string) list" where
  "footprint w = (heap w, next_ref w, captured (trace w), commands (trace w), copies (trace w))"

definition quiet :: "'a io \<Rightarrow> bool" where
  "quiet m \<longleftrightarrow> (\<forall>w. footprint (snd (m w)) = footprint w)"

text \<open>
  The elements of a list up to and including the first that is not \<open>ok\<close>.
\<close>

definition until_failure :: "('a \<Rightarrow> bool) \<Rightarrow> 'a list \<Rightarrow> 'a list" where
  "until_failure ok ps = take (Suc (length (takeWhile ok ps))) ps"

text \<open>
  What the screen goes through: an overlay of the image at a path is shown under a handle,
  the overlay under a handle is hidden, the program holds for some seconds.
\<close>

datatype screen_event = Show string int | Hide int | Hold rat

primrec slideshow_view :: "event list \<Rightarrow> screen_event list" where
  "slideshow_view [] = []"
| "slideshow_view (e # es) =
     (case e of
        AddOverlay h path pad mode sz layer \<Rightarrow> [Show path h]
      | RemoveOverlay h \<Rightarrow> [Hide h]
      | Sleep d \<Rightarrow> [Hold d]
      | _ \<Rightarrow> []) @ slideshow_view es"

text \<open>
  The overlays a run takes off the screen are the handles it passes to
  \<^verbatim>\<open>CAMERA.remove_overlay\<close>, in this order (\<open>removed\<close>); \<open>handles env a n\<close> are the
  handles of the \<open>n\<close> overlays added after the first \<open>a\<close>. The \<open>ledger\<close> of a world is
  the number of overlays added so far together with the overlays removed; a \<open>still\<close>
  action leaves the ledger as it is.
\<close>

primrec removed :: "event list \<Rightarrow> int list" where
  "removed [] = []"
| "removed (e # es) = (case e of RemoveOverlay h \<Rightarrow> [h] | _ \<Rightarrow> []) @ removed es"

definition handles :: "env \<Rightarrow> nat \<Rightarrow> nat \<Rightarrow> int list" where
  "handles env a n = map (overlay_handle env) [a..<a + n]"

definition ledger :: "world \<Rightarrow> nat \<times> int list" where
  "ledger w = (overlays_added w, removed (trace w))"

definition still :: "'a io \<Rightarrow> bool" where
  "still m \<longleftrightarrow> (\<forall>w. ledger (snd (m w)) = ledger w)"

text \<open>
  Two environments that answer alike wherever the GPIO pins are not concerned, and two
  that show the same edges and levels on one pin.
\<close>

definition agree_off_gpio :: "env \<Rightarrow> env \<Rightarrow> bool" where
  "agree_off_gpio env env' \<longleftrightarrow>
     image_size env' = image_size env \<and> float_hsize env' = float_hsize env \<and>
     fmt_half env' = fmt_half env \<and> overlay_handle env' = overlay_handle env \<and>
     datetime_now env' = datetime_now env \<and> copy2_fails env' = copy2_fails env"

definition agree_on_pin :: "int \<Rightarrow> env \<Rightarrow> env \<Rightarrow> bool" where
  "agree_on_pin pin env env' \<longleftrightarrow>
     gpio_edges env' pin = gpio_edges env pin \<and> gpio_level env' pin = gpio_level env pin"

section \<open>A concrete booth\<close>

text \<open>
  A configuration, an environment and a starting world on which the theorems below are
  instantiated: two photos and a one-second countdown, every image 70 by 40 pixels,
  nobody at the buttons, halves printed the way Python 3 prints a float.
\<close>

definition demo_config :: config where
  "demo_config = \<lparr>REAL_PATH = ''/pb'', CAMERA_BUTTON_PIN = 21, EXIT_BUTTON_PIN = 13,
     TOTAL_PICS = 2, PREP_DELAY = 1, COUNTDOWN = 1, PHOTO_W = 1280, PHOTO_H = 720,
     SCREEN_W = 800, SCREEN_H = 480, DEBOUNCE_TIME = 1 / 20, TESTMODE_AUTOPRESS_BUTTON = False,
     SAVE_RAW_IMAGES_FOLDER = ''photos'', PROPOSE_GPU_EFFECTS = False,
     COPY_IMAGES_TO = [''usb'', ''backup'']\<rparr>"

definition demo_env :: env where
  "demo_env = \<lparr>gpio_edges = (\<lambda>_. []), gpio_level = (\<lambda>_ _. 1),
     image_size = (\<lambda>_. Some (70, 40)), float_hsize = (\<lambda>b w h. (h * b) div w),
     fmt_half = (\<lambda>n. str (n div 2) @ (if even n then ''.0'' else ''.5'')),
     overlay_handle = (\<lambda>k. int k + 1),
     datetime_now = (\<lambda>_. ''2017-12-31 23:59:59.123456''), copy2_fails = (\<lambda>_ _. False)\<rparr>"

definition initial_world :: world where
  "initial_world = \<lparr>clock = 0, detect = (\<lambda>_. None), existing = {}, overlays_added = 0,
     heap = (\<lambda>_. []), next_ref = 0, trace = []\<rparr>"

text \<open>
  A world in the waiting state one second after both latches were armed, with a falling
  edge on every pin at half a second: in \<open>held_env\<close> the buttons are still down when
  they are sampled, in \<open>bounce_env\<close> they were let go 25 milliseconds after the poll.
\<close>

definition armed_world :: world where
  "armed_world = \<lparr>clock = 1, detect = (\<lambda>_. None)(21 \<mapsto> 0, 13 \<mapsto> 0), existing = {},
     overlays_added = 2, heap = (\<lambda>_. []), next_ref = 0, trace = []\<rparr>"

definition held_env :: env where
  "held_env = demo_env\<lparr>gpio_edges := (\<lambda>_. [1 / 2]), gpio_level := (\<lambda>_ _. 0)\<rparr>"

definition bounce_env :: env where
  "bounce_env = demo_env\<lparr>gpio_edges := (\<lambda>_. [1 / 2]),
     gpio_level := (\<lambda>_ t. if t < 1 + 1 / 40 then 0 else 1)\<rparr>"

text \<open>
  An environment in which nothing can be copied to \<^verbatim>\<open>usb\<close>, and a world whose shared
  list number 0 holds one file name.
\<close>

definition failing_env :: env where
  "failing_env = demo_env\<lparr>copy2_fails := (\<lambda>src dst. dst = ''usb'')\<rparr>"

definition one_photo_world :: world where
  "one_photo_world = initial_world\<lparr>heap := (\<lambda>_. [''a.jpg'']), next_ref := 1\<rparr>"

text \<open>
  A configuration that names the raw-image folder again as an archive destination.
\<close>

definition duplicate_config :: config where
  "duplicate_config = demo_config\<lparr>COPY_IMAGES_TO := [''photos'']\<rparr>"

text \<open>
  The concrete booth with the preview window switched on, and an environment in which the
  exit button goes down a quarter of a second after \<open>armed_world\<close>, again at 6 and at 15
  seconds, and reads low throughout.
\<close>

definition preview_config :: config where
  "preview_config = demo_config\<lparr>PROPOSE_GPU_EFFECTS := True\<rparr>"

definition exit_pressed_env :: env where
  "exit_pressed_env = demo_env\<lparr>gpio_edges := (gpio_edges demo_env)(13 := [5 / 4, 6, 15]),
     gpio_level := (gpio_level demo_env)(13 := (\<lambda>_. 0))\<rparr>"

section \<open>Overlay padding\<close>

lemma ceil_div_32: "(n + 31) div 32 = \<lceil>(of_int n :: rat) / 32\<rceil>"
proof -
  have "\<lceil>(of_int n :: rat) / of_int 32\<rceil> = - (- n div 32)"
    by (rule ceiling_divide_eq_div)
  moreover have "- (- n div 32) = (n + 31) div 32" by linarith
  ultimately show ?thesis by simp
qed

lemma ceil_div_16: "(n + 15) div 16 = \<lceil>(of_int n :: rat) / 16\<rceil>"
proof -
  have "\<lceil>(of_int n :: rat) / of_int 16\<rceil> = - (- n div 16)"
    by (rule ceiling_divide_eq_div)
  moreover have "- (- n div 16) = (n + 15) div 16" by linarith
  ultimately show ?thesis by simp
qed

text \<open>
  C6. An image of size \<open>(W, H)\<close> no wider than the screen is not resized: the call to the
  compositor carries a buffer of \<open>(\<lceil>W/32\<rceil> * 32, \<lceil>H/16\<rceil> * 16)\<close> pixels, the quotients
  being those of the rationals, and reports the visible size \<open>(W, H)\<close>. The program
  computes the two dimensions with integer division.
\<close>

theorem overlay_image_padding:
  assumes "image_size env image_path = Some (W, H)" and "W \<le> SCREEN_W cfg"
  shows "overlay_image cfg env image_path layer mode w =
           (Inr (overlay_handle env (overlays_added w)),
            w\<lparr>overlays_added := Suc (overlays_added w),
               trace := trace w @ [AddOverlay (overlay_handle env (overlays_added w)) image_path
                 (\<lceil>(of_int W :: rat) / 32\<rceil> * 32, \<lceil>(of_int H :: rat) / 16\<rceil> * 16) mode (W, H) layer]\<rparr>)"
  using assms
  by (simp add: overlay_image_def image_open_def io_bind_def ret_def add_overlay_def Let_def
        ceil_div_32 ceil_div_16)

theorem overlay_image_padding_witness:
  "image_size demo_env ''x.png'' = Some (70, 40) \<and> 70 \<le> SCREEN_W demo_config \<and>
   trace (snd (overlay_image demo_config demo_env ''x.png'' 3 ''RGB'' initial_world)) =
     [AddOverlay 1 ''x.png'' (96, 48) ''RGB'' (70, 40) 3]"
proof -
  have a: "image_size demo_env ''x.png'' = Some (70, 40)" by (simp add: demo_env_def)
  have b: "70 \<le> SCREEN_W demo_config" by (simp add: demo_config_def)
  have c: "\<lceil>(70 :: rat) / 32\<rceil> = 3" "\<lceil>(40 :: rat) / 16\<rceil> = 3" by (simp_all add: ceiling_eq_iff)
  show ?thesis
    using overlay_image_padding [OF a b, of 3 "''RGB''" initial_world] a b c
    by (simp add: demo_env_def initial_world_def)
qed

section \<open>Running the monad\<close>

lemma io_bind_Inr:
  "io_bind m f w = (Inr y, w') \<longleftrightarrow> (\<exists>x w1. m w = (Inr x, w1) \<and> f x w1 = (Inr y, w'))"
  by (auto simp: io_bind_def split: prod.splits sum.splits)

lemma io_then_Inr:
  "io_then m k w = (Inr y, w') \<longleftrightarrow> (\<exists>x w1. m w = (Inr x, w1) \<and> k w1 = (Inr y, w'))"
  by (simp add: io_then_def io_bind_Inr)

lemma io_bind_run: "m w = (Inr x, w1) \<Longrightarrow> io_bind m f w = f x w1"
  by (simp add: io_bind_def)

lemma io_then_run: "m w = (Inr x, w1) \<Longrightarrow> io_then m k w = k w1"
  by (simp add: io_then_def io_bind_def)

section \<open>Polling a button\<close>

lemma poll_button_latched:
  assumes "fst (event_detected env pin w) = Inr True" and "0 \<le> DEBOUNCE_TIME cfg"
  shows "poll_button cfg env pin w =
           (Inr (if gpio_level env pin (clock w + DEBOUNCE_TIME cfg) = 0 then Some True else None),
            w\<lparr>clock := clock w + DEBOUNCE_TIME cfg,
               detect := (detect w)(pin \<mapsto> clock w),
               trace := trace w @ [EventDetected pin True, Sleep (DEBOUNCE_TIME cfg),
                          Input pin (gpio_level env pin (clock w + DEBOUNCE_TIME cfg))]\<rparr>)"
  using assms
  by (auto simp: poll_button_def event_detected_def io_bind_def io_then_def sleep_def ret_def
        gpio_input_def Let_def split: option.splits)

lemma poll_button_Some:
  assumes "poll_button cfg env pin w = (Inr (Some b), w1)"
  shows "b \<and> fst (event_detected env pin w) = Inr True \<and> 0 \<le> DEBOUNCE_TIME cfg
     \<and> gpio_level env pin (clock w + DEBOUNCE_TIME cfg) = 0"
  using assms
  by (auto simp: poll_button_def event_detected_def io_bind_def io_then_def sleep_def ret_def raise_def
        gpio_input_def Let_def split: option.splits if_splits)

text \<open>
  C5. A poll that finds the edge latch of its pin set sleeps for the debounce interval,
  then samples the pin, and reports a press exactly when the sampled level is low. So a
  button whose level is back to high when the interval has elapsed is not reported.
\<close>

theorem poll_button_debounce:
  assumes "fst (event_detected env pin w) = Inr True" and "0 \<le> DEBOUNCE_TIME cfg"
  shows "trace (snd (poll_button cfg env pin w)) =
           trace w @ [EventDetected pin True, Sleep (DEBOUNCE_TIME cfg),
                      Input pin (gpio_level env pin (clock w + DEBOUNCE_TIME cfg))]
       \<and> clock (snd (poll_button cfg env pin w)) = clock w + DEBOUNCE_TIME cfg
       \<and> fst (poll_button cfg env pin w) =
           Inr (if gpio_level env pin (clock w + DEBOUNCE_TIME cfg) = 0 then Some True else None)
       \<and> (gpio_level env pin (clock w + DEBOUNCE_TIME cfg) \<noteq> 0 \<longrightarrow>
            fst (poll_button cfg env pin w) = Inr None)"
  by (simp add: poll_button_latched [OF assms])

theorem poll_button_debounce_witness:
  "fst (event_detected bounce_env 21 armed_world) = Inr True
   \<and> 0 \<le> DEBOUNCE_TIME demo_config
   \<and> gpio_level bounce_env 21 (clock armed_world + DEBOUNCE_TIME demo_config) \<noteq> 0
   \<and> fst (poll_button demo_config bounce_env 21 armed_world) = Inr None
   \<and> trace (snd (poll_button demo_config bounce_env 21 armed_world)) =
        [EventDetected 21 True, Sleep (1 / 20), Input 21 1]"
proof -
  have a: "fst (event_detected bounce_env 21 armed_world) = Inr True"
    by (simp add: event_detected_def bounce_env_def armed_world_def)
  have b: "0 \<le> DEBOUNCE_TIME demo_config" by (simp add: demo_config_def)
  have c: "gpio_level bounce_env 21 (clock armed_world + DEBOUNCE_TIME demo_config) = 1"
    by (simp add: bounce_env_def armed_world_def demo_config_def)
  have d: "trace armed_world = []" "DEBOUNCE_TIME demo_config = 1 / 20"
    by (simp_all add: armed_world_def demo_config_def)
  show ?thesis
    using poll_button_debounce [OF a b] a c by (simp add: d)
qed

section \<open>The exit button in the waiting state\<close>

text \<open>
  C2. A round of the waiting loop in which the poll of the capture button and the poll of
  the exit button both report a press ends in \<^verbatim>\<open>return\<close>, in the world the two
  polls left: the six calls of the two polls are all the round did, and the main loop
  returns there.
\<close>

theorem exit_wins_over_capture:
  assumes "poll_button cfg env (CAMERA_BUTTON_PIN cfg) w = (Inr (Some True), w1)"
      and "poll_button cfg env (EXIT_BUTTON_PIN cfg) w1 = (Inr (Some True), w2)"
  shows "loop_iteration cfg env st w = (Inr (Return, st), w2)
       \<and> main_loop cfg env st w = Some (Inr (), w2)
       \<and> trace w2 = trace w @
           [EventDetected (CAMERA_BUTTON_PIN cfg) True, Sleep (DEBOUNCE_TIME cfg),
            Input (CAMERA_BUTTON_PIN cfg) 0,
            EventDetected (EXIT_BUTTON_PIN cfg) True, Sleep (DEBOUNCE_TIME cfg),
            Input (EXIT_BUTTON_PIN cfg) 0]"
proof -
  have it: "loop_iteration cfg env st w = (Inr (Return, st), w2)"
    using assms by (simp add: loop_iteration_def io_bind_run ret_def del: not_None_eq)
  have ml: "main_loop cfg env st w = Some (Inr (), w2)"
    by (subst main_loop.simps) (simp add: it)
  from poll_button_Some [OF assms(1)]
  have c: "fst (event_detected env (CAMERA_BUTTON_PIN cfg) w) = Inr True" "0 \<le> DEBOUNCE_TIME cfg"
    "gpio_level env (CAMERA_BUTTON_PIN cfg) (clock w + DEBOUNCE_TIME cfg) = 0" by simp_all
  from poll_button_Some [OF assms(2)]
  have e: "fst (event_detected env (EXIT_BUTTON_PIN cfg) w1) = Inr True"
    "gpio_level env (EXIT_BUTTON_PIN cfg) (clock w1 + DEBOUNCE_TIME cfg) = 0" by simp_all
  have t1: "trace w1 = trace w @ [EventDetected (CAMERA_BUTTON_PIN cfg) True, Sleep (DEBOUNCE_TIME cfg),
            Input (CAMERA_BUTTON_PIN cfg) 0]"
    using poll_button_latched [OF c(1,2)] assms(1) c(3) by simp
  have t2: "trace w2 = trace w1 @ [EventDetected (EXIT_BUTTON_PIN cfg) True, Sleep (DEBOUNCE_TIME cfg),
            Input (EXIT_BUTTON_PIN cfg) 0]"
    using poll_button_latched [OF e(1) c(2)] assms(2) e(2) by simp
  show ?thesis using it ml t1 t2 by simp
qed

theorem exit_wins_over_capture_witness:
  "fst (poll_button demo_config held_env (CAMERA_BUTTON_PIN demo_config) armed_world) = Inr (Some True)
   \<and> fst (poll_button demo_config held_env (EXIT_BUTTON_PIN demo_config)
            (snd (poll_button demo_config held_env (CAMERA_BUTTON_PIN demo_config) armed_world)))
        = Inr (Some True)
   \<and> fst (loop_iteration demo_config held_env \<lparr>var_i = 0, var_overlay_1 = 1, var_overlay_2 = 2\<rparr> armed_world)
        = Inr (Return, \<lparr>var_i = 0, var_overlay_1 = 1, var_overlay_2 = 2\<rparr>)
   \<and> trace (snd (loop_iteration demo_config held_env \<lparr>var_i = 0, var_overlay_1 = 1, var_overlay_2 = 2\<rparr> armed_world))
        = [EventDetected 21 True, Sleep (1 / 20), Input 21 0, EventDetected 13 True, Sleep (1 / 20), Input 13 0]"
proof -
  define w1 where "w1 = snd (poll_button demo_config held_env (CAMERA_BUTTON_PIN demo_config) armed_world)"
  define w2 where "w2 = snd (poll_button demo_config held_env (EXIT_BUTTON_PIN demo_config) w1)"
  have D: "0 \<le> DEBOUNCE_TIME demo_config" "DEBOUNCE_TIME demo_config = 1 / 20"
    "CAMERA_BUTTON_PIN demo_config = 21" "EXIT_BUTTON_PIN demo_config = 13"
    by (simp_all add: demo_config_def)
  have a: "fst (event_detected held_env 21 armed_world) = Inr True"
    by (simp add: event_detected_def held_env_def armed_world_def)
  have p1: "poll_button demo_config held_env 21 armed_world =
      (Inr (Some True), armed_world\<lparr>clock := 1 + 1 / 20, detect := (detect armed_world)(21 \<mapsto> 1),
         trace := [EventDetected 21 True, Sleep (1 / 20), Input 21 0]\<rparr>)"
    using poll_button_latched [OF a D(1)] by (simp add: D held_env_def armed_world_def)
  have w1: "w1 = armed_world\<lparr>clock := 1 + 1 / 20, detect := (detect armed_world)(21 \<mapsto> 1),
         trace := [EventDetected 21 True, Sleep (1 / 20), Input 21 0]\<rparr>"
    by (simp add: w1_def D p1)
  have b: "fst (event_detected held_env 13 w1) = Inr True"
    by (simp add: w1 event_detected_def held_env_def armed_world_def)
  have p2: "fst (poll_button demo_config held_env 13 w1) = Inr (Some True)"
    using poll_button_latched [OF b D(1)] by (simp add: held_env_def)
  have h1: "poll_button demo_config held_env (CAMERA_BUTTON_PIN demo_config) armed_world = (Inr (Some True), w1)"
    using p1 w1 by (simp add: D)
  have h2: "poll_button demo_config held_env (EXIT_BUTTON_PIN demo_config) w1 = (Inr (Some True), w2)"
    using p2 by (simp add: w2_def D prod_eq_iff)
  have t: "trace armed_world = []" by (simp add: armed_world_def)
  show ?thesis
    using exit_wins_over_capture [OF h1 h2, of "\<lparr>var_i = 0, var_overlay_1 = 1, var_overlay_2 = 2\<rparr>"]
      h1 h2 t
    by (simp add: D w1_def [symmetric])
qed

section \<open>What a run leaves behind\<close>

lemma captured_append [simp]: "captured (xs @ ys) = captured xs @ captured ys"
  by (induction xs) simp_all

lemma commands_append [simp]: "commands (xs @ ys) = commands xs @ commands ys"
  by (induction xs) simp_all

lemma copies_append [simp]: "copies (xs @ ys) = copies xs @ copies ys"
  by (induction xs) simp_all

lemma quietD: "quiet m \<Longrightarrow> m w = (r, w') \<Longrightarrow> footprint w' = footprint w"
  by (auto simp: quiet_def dest: spec [of _ w])

lemma quiet_ret: "quiet (ret x)"
  by (simp add: quiet_def ret_def)

lemma quiet_raise: "quiet (raise e)"
  by (simp add: quiet_def raise_def)

lemma quiet_bind: "quiet m \<Longrightarrow> (\<And>x. quiet (f x)) \<Longrightarrow> quiet (io_bind m f)"
  unfolding quiet_def io_bind_def
proof
  fix w
  assume m: "\<forall>w. footprint (snd (m w)) = footprint w"
    and f: "\<And>x. \<forall>w. footprint (snd (f x w)) = footprint w"
  obtain r w1 where mw: "m w = (r, w1)" by (cases "m w")
  from m have w1: "footprint w1 = footprint w" using mw by (metis snd_conv)
  show "footprint (snd (case m w of (Inl e, w') \<Rightarrow> (Inl e, w') | (Inr x, w') \<Rightarrow> f x w')) = footprint w"
  proof (cases r)
    case (Inl e)
    with mw w1 show ?thesis by simp
  next
    case (Inr x)
    with mw w1 f [of x] show ?thesis by simp
  qed
qed

lemma quiet_then: "quiet m \<Longrightarrow> quiet k \<Longrightarrow> quiet (io_then m k)"
  by (simp add: io_then_def quiet_bind)

lemma quiet_if: "quiet a \<Longrightarrow> quiet b \<Longrightarrow> quiet (if c then a else b)"
  by simp

lemma quiet_for_each: "(\<And>x. quiet (body x)) \<Longrightarrow> quiet (for_each xs body)"
  by (induction xs) (simp_all add: quiet_ret quiet_then)

lemma quiet_prims:
  "quiet (py_print s)" "quiet (sleep d)" "quiet perf_counter" "quiet (path_exists p)"
  "quiet (makedirs p)" "quiet (image_open env path)" "quiet (add_overlay env path pad mode sz layer)"
  "quiet (remove_overlay h)" "quiet (add_event_detect pin)" "quiet (remove_event_detect pin)"
  "quiet (event_detected env pin)" "quiet (gpio_input env pin)"
  "quiet (emit (SetImageEffect s))" "quiet (emit (SetAnnotateText s))"
  "quiet (emit (StartPreview sz))" "quiet (emit (SetAlpha h a))"
  by (auto simp: quiet_def footprint_def py_print_def emit_def sleep_def raise_def perf_counter_def
        path_exists_def makedirs_def image_open_def ret_def add_overlay_def remove_overlay_def
        add_event_detect_def remove_event_detect_def event_detected_def gpio_input_def Let_def
        split: option.splits)

lemmas quiet_intros = quiet_ret quiet_raise quiet_bind quiet_then quiet_if quiet_for_each quiet_prims

lemma quiet_overlay_image: "quiet (overlay_image cfg env image_path layer mode)"
  by (simp add: overlay_image_def Let_def quiet_intros)

lemma quiet_poll_button: "quiet (poll_button cfg env pin)"
  by (simp add: poll_button_def quiet_intros)

lemma quiet_get_base: "quiet (get_base_filename_for_images cfg env)"
  by (simp add: quiet_def get_base_filename_for_images_def Let_def)

lemma quiet_prep: "quiet (prep_for_photo_screen cfg env n)"
  by (simp add: prep_for_photo_screen_def Let_def quiet_overlay_image)

lemma quiet_preview_window: "quiet (preview_window cfg env tic)"
  unfolding quiet_def
proof
  fix w
  show "footprint (snd (preview_window cfg env tic w)) = footprint w"
  proof (induction cfg env tic w rule: preview_window.induct)
    case (1 cfg env tic w)
    show ?case
    proof (cases "clock w - tic < 2")
      case False
      then show ?thesis by (simp add: preview_window.simps [of cfg env tic w])
    next
      case True
      obtain r w1 where p: "poll_button cfg env (CAMERA_BUTTON_PIN cfg) w = (r, w1)"
        by (cases "poll_button cfg env (CAMERA_BUTTON_PIN cfg) w")
      have f1: "footprint w1 = footprint w" by (rule quietD [OF quiet_poll_button p])
      show ?thesis
      proof (cases r)
        case (Inl e)
        with True p f1 show ?thesis by (simp add: preview_window.simps [of cfg env tic w])
      next
        case (Inr b)
        show ?thesis
        proof (cases "b = Some True")
          case True
          have "footprint (snd (emit (SetImageEffect ''sketch'') w1)) = footprint w1"
            using quiet_prims(13) by (simp add: quiet_def)
          with \<open>clock w - tic < 2\<close> p Inr True f1 show ?thesis
            by (simp add: preview_window.simps [of cfg env tic w])
        next
          case False
          obtain r2 w2 where s: "sleep (1 / 10) w1 = (r2, w2)" by (cases "sleep (1 / 10) w1")
          have f2: "footprint w2 = footprint w1" by (rule quietD [OF quiet_prims(2) s])
          show ?thesis
          proof (cases r2)
            case (Inl e)
            with \<open>clock w - tic < 2\<close> p Inr False s f1 f2 show ?thesis
              by (simp add: preview_window.simps [of cfg env tic w])
          next
            case (Inr u)
            have "footprint (snd (preview_window cfg env tic w2)) = footprint w2"
              using "1.IH" [OF \<open>clock w - tic < 2\<close> p [symmetric] \<open>r = Inr b\<close> False s [symmetric] Inr] .
            with \<open>clock w - tic < 2\<close> p \<open>r = Inr b\<close> False s Inr f1 f2 show ?thesis
              by (simp add: preview_window.simps [of cfg env tic w])
          qed
        qed
      qed
    qed
  qed
qed

lemma taking_photo_footprint:
  assumes "taking_photo cfg env n prefix w = (Inr fname, w')"
  shows "fname = prefix @ ''_'' @ str n @ ''of'' @ str (TOTAL_PICS cfg) @ ''.jpg''
       \<and> footprint w' = (heap w, next_ref w, captured (trace w) @ [fname], commands (trace w), copies (trace w))"
proof -
  let ?F = "prefix @ ''_'' @ str n @ ''of'' @ str (TOTAL_PICS cfg) @ ''.jpg''"
  let ?loop = "for_each (range_down (COUNTDOWN cfg) 0) (\<lambda>counter.
              let countdown_image = REAL_PATH cfg @ ''/assets/countdown_'' @ str counter @ ''.png''
              in io_bind (overlay_image cfg env countdown_image 5 ''RGBA'') (\<lambda>countdown_overlay.
                 io_then (py_print ('' ...'' @ str counter))
                (io_then (sleep 1)
                         (remove_overlay countdown_overlay))))"
  have ql: "quiet ?loop"
    by (simp add: Let_def quiet_intros quiet_overlay_image)
  obtain w1 w2 w3 w4 w5 where a1: "?loop w = (Inr (), w1)"
    and a2: "sleep (1 / 2) w1 = (Inr (), w2)"
    and a3: "emit (SetAnnotateText []) w2 = (Inr (), w3)"
    and a4: "emit (Capture ?F) w3 = (Inr (), w4)"
    and a5: "py_print (''Photo ('' @ str n @ '') saved: '' @ ?F) w4 = (Inr (), w5)"
    and r5: "ret ?F w5 = (Inr fname, w')"
    using assms unfolding taking_photo_def Let_def by (auto simp: io_then_Inr)
  have f1: "footprint w1 = footprint w" by (rule quietD [OF ql a1])
  have f2: "footprint w2 = footprint w1" by (rule quietD [OF quiet_prims(2) a2])
  have f3: "footprint w3 = footprint w2" by (rule quietD [OF quiet_prims(14) a3])
  have f4: "footprint w4 = (heap w3, next_ref w3, captured (trace w3) @ [?F], commands (trace w3), copies (trace w3))"
    using a4 by (auto simp: emit_def footprint_def)
  have f5: "footprint w5 = footprint w4" by (rule quietD [OF quiet_prims(1) a5])
  from r5 have e: "fname = ?F" "w' = w5" by (simp_all add: ret_def)
  show ?thesis using f1 f2 f3 f4 f5 e by (simp add: footprint_def)
qed

lemma capture_loop_footprint:
  assumes "for_each xs (\<lambda>photo_number.
       io_bind (prep_for_photo_screen cfg env photo_number) (\<lambda>ol_id.
       io_then (sleep (PREP_DELAY cfg))
      (io_then (remove_overlay ol_id)
      (io_bind (taking_photo cfg env photo_number prefix) (\<lambda>fname.
               list_append ref fname))))) w = (Inr u, w')"
  shows "footprint w' =
     ((heap w)(ref := heap w ref @ map (\<lambda>n. prefix @ ''_'' @ str n @ ''of'' @ str (TOTAL_PICS cfg) @ ''.jpg'') xs),
      next_ref w,
      captured (trace w) @ map (\<lambda>n. prefix @ ''_'' @ str n @ ''of'' @ str (TOTAL_PICS cfg) @ ''.jpg'') xs,
      commands (trace w), copies (trace w))"
  using assms
proof (induction xs arbitrary: w)
  case Nil
  then show ?case by (simp add: ret_def footprint_def)
next
  case (Cons n xs)
  let ?F = "\<lambda>n. prefix @ ''_'' @ str n @ ''of'' @ str (TOTAL_PICS cfg) @ ''.jpg''"
  let ?body = "\<lambda>photo_number.
       io_bind (prep_for_photo_screen cfg env photo_number) (\<lambda>ol_id.
       io_then (sleep (PREP_DELAY cfg))
      (io_then (remove_overlay ol_id)
      (io_bind (taking_photo cfg env photo_number prefix) (\<lambda>fname.
               list_append ref fname))))"
  obtain ol_id w1 w2 w3 fname w4 w5 where a1: "prep_for_photo_screen cfg env n w = (Inr ol_id, w1)"
    and a2: "sleep (PREP_DELAY cfg) w1 = (Inr (), w2)"
    and a3: "remove_overlay ol_id w2 = (Inr (), w3)"
    and a4: "taking_photo cfg env n prefix w3 = (Inr fname, w4)"
    and a5: "list_append ref fname w4 = (Inr (), w5)"
    and rest: "for_each xs ?body w5 = (Inr u, w')"
    using Cons.prems by (auto simp: io_then_Inr io_bind_Inr)
  have f1: "footprint w1 = footprint w" by (rule quietD [OF quiet_prep a1])
  have f2: "footprint w2 = footprint w1" by (rule quietD [OF quiet_prims(2) a2])
  have f3: "footprint w3 = footprint w2" by (rule quietD [OF quiet_prims(8) a3])
  note f4 = taking_photo_footprint [OF a4]
  have f5: "footprint w5 = ((heap w4)(ref := heap w4 ref @ [fname]), next_ref w4,
      captured (trace w4), commands (trace w4), copies (trace w4))"
    using a5 by (auto simp: list_append_def footprint_def)
  have "footprint w5 = ((heap w)(ref := heap w ref @ [?F n]), next_ref w,
      captured (trace w) @ [?F n], commands (trace w), copies (trace w))"
    using f1 f2 f3 f4 f5 by (simp add: footprint_def)
  with Cons.IH [OF rest] show ?case by (auto simp add: footprint_def fun_eq_iff)
qed

lemma capture_photos_footprint:
  assumes "capture_photos cfg env prefix ref w = (Inr u, w')"
  shows "footprint w' =
     ((heap w)(ref := heap w ref @ map (\<lambda>n. prefix @ ''_'' @ str n @ ''of'' @ str (TOTAL_PICS cfg) @ ''.jpg'') [1..TOTAL_PICS cfg]),
      next_ref w,
      captured (trace w) @ map (\<lambda>n. prefix @ ''_'' @ str n @ ''of'' @ str (TOTAL_PICS cfg) @ ''.jpg'') [1..TOTAL_PICS cfg],
      commands (trace w), copies (trace w))"
  using capture_loop_footprint [of "range_up 1 (TOTAL_PICS cfg + 1)" cfg env prefix ref w u w'] assms
  by (simp add: capture_photos_def range_up_def)

lemma quiet_playback_loop: "quiet (playback_loop cfg env montage files prev)"
  by (induction files arbitrary: prev) (simp_all add: quiet_intros quiet_overlay_image)

lemma playback_screen_footprint:
  assumes "playback_screen cfg env prefix ref w = (Inr ol_done, w')"
  shows "footprint w' =
     ((heap w)(ref := heap w ref @ [prefix @ ''.jpg'']), next_ref w, captured (trace w),
      commands (trace w) @ [''montage '' @ prefix @ ''* -geometry '' @ fmt_half env (PHOTO_W cfg)
                        @ ''x'' @ fmt_half env (PHOTO_H cfg) @ '' '' @ prefix @ ''.jpg''],
      copies (trace w))"
proof -
  let ?cmd = "''montage '' @ prefix @ ''* -geometry '' @ fmt_half env (PHOTO_W cfg)
                        @ ''x'' @ fmt_half env (PHOTO_H cfg) @ '' '' @ prefix @ ''.jpg''"
  let ?montage = "prefix @ ''.jpg''"
  obtain w1 h0 w2 w3 w4 files w5 prev w6 w7 w8 where
        a1: "py_print ''Processing...'' w = (Inr (), w1)"
    and a2: "overlay_image cfg env (REAL_PATH cfg @ ''/assets/processing.png'') 4 ''RGB'' w1 = (Inr h0, w2)"
    and a3: "os_system ?cmd w2 = (Inr (), w3)"
    and a4: "list_append ref ?montage w3 = (Inr (), w4)"
    and a5: "list_read ref w4 = (Inr files, w5)"
    and a6: "playback_loop cfg env ?montage files h0 w5 = (Inr prev, w6)"
    and a7: "py_print ''All done!'' w6 = (Inr (), w7)"
    and a8: "overlay_image cfg env (REAL_PATH cfg @ ''/assets/all_done_delayed_upload.png'') 5 ''RGB'' w7 = (Inr ol_done, w8)"
    and a9: "remove_overlay prev w8 = (Inr (), w')"
    using assms unfolding playback_screen_def Let_def
    by (auto simp: io_then_Inr io_bind_Inr ret_def)
  have f1: "footprint w1 = footprint w" by (rule quietD [OF quiet_prims(1) a1])
  have f2: "footprint w2 = footprint w1" by (rule quietD [OF quiet_overlay_image a2])
  have f3: "footprint w3 = (heap w2, next_ref w2, captured (trace w2), commands (trace w2) @ [?cmd], copies (trace w2))"
    using a3 by (auto simp: os_system_def emit_def footprint_def)
  have f4: "footprint w4 = ((heap w3)(ref := heap w3 ref @ [?montage]), next_ref w3,
      captured (trace w3), commands (trace w3), copies (trace w3))"
    using a4 by (auto simp: list_append_def footprint_def)
  have f5: "footprint w5 = footprint w4" using a5 by (auto simp: list_read_def)
  have f6: "footprint w6 = footprint w5" by (rule quietD [OF quiet_playback_loop a6])
  have f7: "footprint w7 = footprint w6" by (rule quietD [OF quiet_prims(1) a7])
  have f8: "footprint w8 = footprint w7" by (rule quietD [OF quiet_overlay_image a8])
  have f9: "footprint w' = footprint w8" by (rule quietD [OF quiet_prims(8) a9])
  show ?thesis using f1 f2 f3 f4 f5 f6 f7 f8 f9 by (simp add: footprint_def)
qed

lemma until_failure_Nil [simp]: "until_failure P [] = []"
  by (simp add: until_failure_def)

lemma until_failure_Cons [simp]:
  "until_failure P (p # ps) = p # (if P p then until_failure P ps else [])"
  by (simp add: until_failure_def)

lemma until_failure_all: "list_all P xs \<Longrightarrow> until_failure P xs = xs"
  by (induction xs) auto

lemma until_failure_append:
  "until_failure P (xs @ ys) = (if list_all P xs then xs @ until_failure P ys else until_failure P xs)"
  by (induction xs) auto

lemma find_append_case:
  "List.find Q (xs @ ys) = (case List.find Q xs of None \<Rightarrow> List.find Q ys | Some x \<Rightarrow> Some x)"
  by (induction xs) auto

lemma find_None_list_all: "List.find Q xs = None \<longleftrightarrow> list_all (\<lambda>x. \<not> Q x) xs"
  by (induction xs) auto

lemma io_bind_fail: "m w = (Inl e, w1) \<Longrightarrow> io_bind m f w = (Inl e, w1)"
  by (simp add: io_bind_def)

lemma io_then_fail: "m w = (Inl e, w1) \<Longrightarrow> io_then m k w = (Inl e, w1)"
  by (simp add: io_then_def io_bind_def)

lemma copy_step:
  "io_then (py_print msg) (copy2 env src dest) w =
     (if copy2_fails env src dest then Inl (CopyError src dest) else Inr (),
      w\<lparr>trace := trace w @ [Print msg, Copy2 src dest]\<rparr>)"
  by (simp add: io_then_def io_bind_def py_print_def emit_def copy2_def ret_def raise_def)

lemma archive_inner:
  "footprint (snd (for_each files (\<lambda>src. io_then (py_print (msg src dest)) (copy2 env src dest)) w)) =
     (heap w, next_ref w, captured (trace w), commands (trace w),
      copies (trace w) @ until_failure (\<lambda>(s, d). \<not> copy2_fails env s d) (map (\<lambda>s. (s, dest)) files))
   \<and> fst (for_each files (\<lambda>src. io_then (py_print (msg src dest)) (copy2 env src dest)) w) =
     (case List.find (\<lambda>(s, d). copy2_fails env s d) (map (\<lambda>s. (s, dest)) files) of
        None \<Rightarrow> Inr () | Some (s, d) \<Rightarrow> Inl (CopyError s d))"
proof (induction files arbitrary: w)
  case Nil
  show ?case by (simp add: ret_def footprint_def)
next
  case (Cons f files)
  let ?body = "\<lambda>src. io_then (py_print (msg src dest)) (copy2 env src dest)"
  let ?w1 = "w\<lparr>trace := trace w @ [Print (msg f dest), Copy2 f dest]\<rparr>"
  show ?case
  proof (cases "copy2_fails env f dest")
    case True
    then have b: "?body f w = (Inl (CopyError f dest), ?w1)" by (simp add: copy_step)
    have "for_each (f # files) ?body w = (Inl (CopyError f dest), ?w1)"
      unfolding for_each.simps by (rule io_then_fail [where m = "?body f" and w = w, OF b])
    with True show ?thesis by (simp add: footprint_def)
  next
    case False
    then have b: "?body f w = (Inr (), ?w1)" by (simp add: copy_step)
    have "for_each (f # files) ?body w = for_each files ?body ?w1"
      unfolding for_each.simps by (rule io_then_run [where m = "?body f" and w = w, OF b])
    with False Cons.IH [of ?w1] show ?thesis by (simp add: footprint_def)
  qed
qed

lemma archive_outer:
  "footprint (snd (for_each dests (\<lambda>dest. io_bind (list_read ref) (\<lambda>files.
        for_each files (\<lambda>src. io_then (py_print (msg src dest)) (copy2 env src dest)))) w)) =
     (heap w, next_ref w, captured (trace w), commands (trace w),
      copies (trace w) @ until_failure (\<lambda>(s, d). \<not> copy2_fails env s d)
                              (concat (map (\<lambda>d. map (\<lambda>s. (s, d)) (heap w ref)) dests)))
   \<and> fst (for_each dests (\<lambda>dest. io_bind (list_read ref) (\<lambda>files.
        for_each files (\<lambda>src. io_then (py_print (msg src dest)) (copy2 env src dest)))) w) =
     (case List.find (\<lambda>(s, d). copy2_fails env s d) (concat (map (\<lambda>d. map (\<lambda>s. (s, d)) (heap w ref)) dests)) of
        None \<Rightarrow> Inr () | Some (s, d) \<Rightarrow> Inl (CopyError s d))"
proof (induction dests arbitrary: w)
  case Nil
  show ?case by (simp add: ret_def footprint_def)
next
  case (Cons dest dests)
  let ?inner = "\<lambda>dest files. for_each files (\<lambda>src. io_then (py_print (msg src dest)) (copy2 env src dest))"
  let ?body = "\<lambda>dest. io_bind (list_read ref) (\<lambda>files. ?inner dest files)"
  let ?row = "map (\<lambda>s. (s, dest)) (heap w ref)"
  let ?P = "\<lambda>(s, d). \<not> copy2_fails env s d"
  let ?Q = "\<lambda>(s, d). copy2_fails env s d"
  obtain r w1 where run: "?inner dest (heap w ref) w = (r, w1)" by (cases "?inner dest (heap w ref) w")
  have bw: "?body dest w = (r, w1)" using run by (simp add: io_bind_def list_read_def)
  from archive_inner [of "heap w ref" msg dest env w] run
  have f1: "footprint w1 = (heap w, next_ref w, captured (trace w), commands (trace w),
      copies (trace w) @ until_failure ?P ?row)"
    and r1: "r = (case List.find ?Q ?row of None \<Rightarrow> Inr () | Some (s, d) \<Rightarrow> Inl (CopyError s d))"
    by simp_all
  have PQ: "list_all ?P ?row \<longleftrightarrow> List.find ?Q ?row = None"
    by (simp add: find_None_list_all case_prod_unfold)
  show ?case
  proof (cases "List.find ?Q ?row")
    case None
    then have "r = Inr ()" using r1 by simp
    with bw have bw': "?body dest w = (Inr (), w1)" by simp
    have step: "for_each (dest # dests) ?body w = for_each dests ?body w1"
      unfolding for_each.simps by (rule io_then_run [where m = "?body dest" and w = w, OF bw'])
    have h: "heap w1 = heap w" using f1 by (simp add: footprint_def)
    show ?thesis
      unfolding step using Cons.IH [of w1] f1 None PQ
      by (simp add: h footprint_def until_failure_append until_failure_all find_append_case)
  next
    case (Some p)
    then obtain e where re: "r = Inl e" using r1 by (cases p) simp
    with bw have bw': "?body dest w = (Inl e, w1)" by simp
    have step: "for_each (dest # dests) ?body w = (r, w1)"
      unfolding for_each.simps re by (rule io_then_fail [where m = "?body dest" and w = w, OF bw'])
    show ?thesis
      unfolding step using f1 r1 Some PQ
      by (simp add: footprint_def until_failure_append find_append_case)
  qed
qed

lemma archive_photos_result:
  "footprint (snd (archive_photos cfg env ref w)) =
     (heap w, next_ref w, captured (trace w), commands (trace w),
      copies (trace w) @ until_failure (\<lambda>(s, d). \<not> copy2_fails env s d)
                              (concat (map (\<lambda>d. map (\<lambda>s. (s, d)) (heap w ref)) (COPY_IMAGES_TO cfg))))
   \<and> fst (archive_photos cfg env ref w) =
     (case List.find (\<lambda>(s, d). copy2_fails env s d)
             (concat (map (\<lambda>d. map (\<lambda>s. (s, d)) (heap w ref)) (COPY_IMAGES_TO cfg))) of
        None \<Rightarrow> Inr () | Some (s, d) \<Rightarrow> Inl (CopyError s d))"
  unfolding archive_photos_def
  by (rule archive_outer [where msg = "\<lambda>src dest. src @ '' -> '' @ dest"])

lemma archive_photos_success:
  assumes "archive_photos cfg env ref w = (Inr u, w')"
  shows "footprint w' =
     (heap w, next_ref w, captured (trace w), commands (trace w),
      copies (trace w) @ concat (map (\<lambda>d. map (\<lambda>s. (s, d)) (heap w ref)) (COPY_IMAGES_TO cfg)))"
proof -
  let ?pairs = "concat (map (\<lambda>d. map (\<lambda>s. (s, d)) (heap w ref)) (COPY_IMAGES_TO cfg))"
  from archive_photos_result [of cfg env ref w] assms
  have f: "footprint w' = (heap w, next_ref w, captured (trace w), commands (trace w),
      copies (trace w) @ until_failure (\<lambda>(s, d). \<not> copy2_fails env s d) ?pairs)"
    and r: "(case List.find (\<lambda>(s, d). copy2_fails env s d) ?pairs of
        None \<Rightarrow> Inr () | Some (s, d) \<Rightarrow> Inl (CopyError s d)) = (Inr u :: error + unit)"
    by simp_all
  from r have "List.find (\<lambda>(s, d). copy2_fails env s d) ?pairs = None"
    by (auto split: option.splits)
  then have "list_all (\<lambda>(s, d). \<not> copy2_fails env s d) ?pairs"
    by (simp add: find_None_list_all case_prod_unfold)
  then have "until_failure (\<lambda>(s, d). \<not> copy2_fails env s d) ?pairs = ?pairs"
    by (rule until_failure_all)
  with f show ?thesis by simp
qed

lemma session_footprint:
  assumes "session cfg env st w = (Inr out, w')"
  shows "\<exists>base. captured (trace w') = captured (trace w) @
           map (\<lambda>n. base @ ''_'' @ str n @ ''of'' @ str (TOTAL_PICS cfg) @ ''.jpg'') [1..TOTAL_PICS cfg]
       \<and> commands (trace w') = commands (trace w) @
           [''montage '' @ base @ ''* -geometry '' @ fmt_half env (PHOTO_W cfg)
              @ ''x'' @ fmt_half env (PHOTO_H cfg) @ '' '' @ base @ ''.jpg'']
       \<and> copies (trace w') = copies (trace w) @
           concat (map (\<lambda>d. map (\<lambda>s. (s, d))
              (map (\<lambda>n. base @ ''_'' @ str n @ ''of'' @ str (TOTAL_PICS cfg) @ ''.jpg'') [1..TOTAL_PICS cfg]
                 @ [base @ ''.jpg''])) (COPY_IMAGES_TO cfg))"
proof -
  let ?preview = "if PROPOSE_GPU_EFFECTS cfg
              then io_bind perf_counter (\<lambda>tic. preview_window cfg env tic)
              else ret ()"
  let ?tail = "\<lambda>ol_done. if TESTMODE_AUTOPRESS_BUTTON cfg then ret (Break, st)
     else io_bind (overlay_image cfg env (REAL_PATH cfg @ ''/assets/intro_1.png'') 3 ''RGB'') (\<lambda>overlay_1.
          io_bind (overlay_image cfg env (REAL_PATH cfg @ ''/assets/intro_2.png'') 4 ''RGB'') (\<lambda>overlay_2.
          io_then (remove_overlay ol_done)
         (io_then (add_event_detect (CAMERA_BUTTON_PIN cfg))
         (io_then (add_event_detect (EXIT_BUTTON_PIN cfg))
         (io_then (py_print ''Press the button to take a photo'')
                  (ret (Continue, st\<lparr>var_overlay_1 := overlay_1, var_overlay_2 := overlay_2\<rparr>)))))))"
  have qp: "quiet ?preview" by (simp add: quiet_intros quiet_preview_window)
  have qt: "\<And>ol_done. quiet (?tail ol_done)" by (simp add: quiet_intros quiet_overlay_image)
  obtain w1 w2 w3 w4 w5 w6 w7 base w8 ref w9 w10 ol_done w11 w12 w13 where
        a1: "py_print ''Button pressed! You folks are in for a treat.'' w = (Inr (), w1)"
    and a2: "remove_overlay (var_overlay_2 st) w1 = (Inr (), w2)"
    and a3: "remove_overlay (var_overlay_1 st) w2 = (Inr (), w3)"
    and a4: "emit (SetImageEffect ''none'') w3 = (Inr (), w4)"
    and a5: "?preview w4 = (Inr (), w5)"
    and a6: "remove_event_detect (CAMERA_BUTTON_PIN cfg) w5 = (Inr (), w6)"
    and a7: "remove_event_detect (EXIT_BUTTON_PIN cfg) w6 = (Inr (), w7)"
    and a8: "get_base_filename_for_images cfg env w7 = (Inr base, w8)"
    and a9: "new_list w8 = (Inr ref, w9)"
    and a10: "capture_photos cfg env base ref w9 = (Inr (), w10)"
    and a11: "playback_screen cfg env base ref w10 = (Inr ol_done, w11)"
    and a12: "sleep 2 w11 = (Inr (), w12)"
    and a13: "archive_photos cfg env ref w12 = (Inr (), w13)"
    and a14: "?tail ol_done w13 = (Inr out, w')"
    using assms unfolding session_def
    by (auto simp: io_then_Inr io_bind_Inr)
  define raw where "raw = map (\<lambda>n. base @ ''_'' @ str n @ ''of'' @ str (TOTAL_PICS cfg) @ ''.jpg'') [1..TOTAL_PICS cfg]"
  define cmd where "cmd = ''montage '' @ base @ ''* -geometry '' @ fmt_half env (PHOTO_W cfg)
              @ ''x'' @ fmt_half env (PHOTO_H cfg) @ '' '' @ base @ ''.jpg''"
  define montage where "montage = base @ ''.jpg''"
  have f1: "footprint w1 = footprint w" by (rule quietD [OF quiet_prims(1) a1])
  have f2: "footprint w2 = footprint w1" by (rule quietD [OF quiet_prims(8) a2])
  have f3: "footprint w3 = footprint w2" by (rule quietD [OF quiet_prims(8) a3])
  have f4: "footprint w4 = footprint w3" by (rule quietD [OF quiet_prims(13) a4])
  have f5: "footprint w5 = footprint w4" by (rule quietD [OF qp a5])
  have f6: "footprint w6 = footprint w5" by (rule quietD [OF quiet_prims(10) a6])
  have f7: "footprint w7 = footprint w6" by (rule quietD [OF quiet_prims(10) a7])
  have f8: "footprint w8 = footprint w7" by (rule quietD [OF quiet_get_base a8])
  have F8: "footprint w8 = footprint w" using f1 f2 f3 f4 f5 f6 f7 f8 by simp
  have F9: "footprint w9 = ((heap w8)(ref := []), Suc (next_ref w8), captured (trace w8),
      commands (trace w8), copies (trace w8))"
    using a9 by (auto simp: new_list_def footprint_def)
  have F10: "footprint w10 = ((heap w9)(ref := heap w9 ref @ raw), next_ref w9,
      captured (trace w9) @ raw, commands (trace w9), copies (trace w9))"
    using capture_photos_footprint [OF a10] by (simp add: raw_def)
  have F11: "footprint w11 = ((heap w10)(ref := heap w10 ref @ [montage]), next_ref w10,
      captured (trace w10), commands (trace w10) @ [cmd], copies (trace w10))"
    using playback_screen_footprint [OF a11] by (simp add: cmd_def montage_def)
  have F12: "footprint w12 = footprint w11" by (rule quietD [OF quiet_prims(2) a12])
  have F13: "footprint w13 = (heap w12, next_ref w12, captured (trace w12), commands (trace w12),
      copies (trace w12) @ concat (map (\<lambda>d. map (\<lambda>s. (s, d)) (heap w12 ref)) (COPY_IMAGES_TO cfg)))"
    by (rule archive_photos_success [OF a13])
  have F14: "footprint w' = footprint w13" by (rule quietD [OF qt a14])
  have h10: "heap w10 ref = raw" using F9 F10 by (simp add: footprint_def)
  have h12: "heap w12 ref = raw @ [montage]" using h10 F11 F12 by (simp add: footprint_def)
  have c9: "captured (trace w9) = captured (trace w)" "commands (trace w9) = commands (trace w)"
    "copies (trace w9) = copies (trace w)"
    using F8 F9 by (simp_all add: footprint_def)
  have c10: "captured (trace w10) = captured (trace w) @ raw" "commands (trace w10) = commands (trace w)"
    "copies (trace w10) = copies (trace w)"
    using c9 F10 by (simp_all add: footprint_def)
  have c12: "captured (trace w12) = captured (trace w) @ raw" "commands (trace w12) = commands (trace w) @ [cmd]"
    "copies (trace w12) = copies (trace w)"
    using c10 F11 F12 by (simp_all add: footprint_def)
  have c14: "captured (trace w') = captured (trace w) @ raw" "commands (trace w') = commands (trace w) @ [cmd]"
    "copies (trace w') = copies (trace w) @ concat (map (\<lambda>d. map (\<lambda>s. (s, d)) (raw @ [montage])) (COPY_IMAGES_TO cfg))"
    using c12 h12 F13 F14 by (simp_all add: footprint_def)
  show ?thesis
    by (rule exI [of _ base]) (use c14 in \<open>simp add: raw_def cmd_def montage_def\<close>)
qed

section \<open>Running the program on concrete inputs\<close>

lemma exec_ret: "io_bind (ret x) f w = f x w"
  by (simp add: io_bind_def ret_def)

lemma exec_raise: "io_bind (raise e) f w = (Inl e, w)"
  by (simp add: io_bind_def raise_def)

lemma exec_assoc: "io_bind (io_bind m f) g w = io_bind m (\<lambda>x. io_bind (f x) g) w"
  by (simp add: io_bind_def split: prod.splits sum.splits)

lemma exec_then: "io_then m k w = io_bind m (\<lambda>_. k) w"
  by (simp add: io_then_def)

lemma exec_then_bind: "io_bind (io_then m k) g w = io_bind m (\<lambda>_. io_bind k g) w"
  by (simp add: io_then_def exec_assoc)

lemma exec_if: "io_bind (if c then a else b) f w = (if c then io_bind a f w else io_bind b f w)"
  by simp

lemma exec_emit: "io_bind (emit e) f w = f () (w\<lparr>trace := trace w @ [e]\<rparr>)"
  by (simp add: io_bind_def emit_def)

lemma exec_sleep:
  "io_bind (sleep d) f w =
     (if d < 0 then (Inl ValueError, w) else f () (w\<lparr>clock := clock w + d, trace := trace w @ [Sleep d]\<rparr>))"
  by (simp add: io_bind_def sleep_def raise_def)

lemma exec_for_each_Nil: "io_bind (for_each [] body) f w = f () w"
  by (simp add: io_bind_def ret_def)

lemma exec_for_each_Cons:
  "io_bind (for_each (x # xs) body) f w = io_bind (body x) (\<lambda>_. io_bind (for_each xs body) f) w"
  by (simp add: io_then_def exec_assoc)

lemma exec_image_open:
  "io_bind (image_open env path) f w =
     (case image_size env path of None \<Rightarrow> (Inl (IOError path), w) | Some sz \<Rightarrow> f sz w)"
  by (simp add: image_open_def io_bind_def raise_def ret_def split: option.splits)

lemma exec_add_overlay:
  "io_bind (add_overlay env path pad mode sz layer) f w =
     f (overlay_handle env (overlays_added w))
       (w\<lparr>overlays_added := Suc (overlays_added w),
          trace := trace w @ [AddOverlay (overlay_handle env (overlays_added w)) path pad mode sz layer]\<rparr>)"
  by (simp add: add_overlay_def io_bind_def Let_def)

lemma exec_overlay_image:
  "io_bind (overlay_image cfg env image_path layer mode) f w =
     io_bind (image_open env image_path) (\<lambda>img.
       io_bind (let img = (if fst img > SCREEN_W cfg
                  then (let basewidth = SCREEN_W cfg;
                            hsize = float_hsize env basewidth (fst img) (snd img)
                        in (basewidth, hsize))
                  else img);
           pad = (((fst img + 31) div 32) * 32, ((snd img + 15) div 16) * 16)
       in add_overlay env image_path pad mode img layer) f) w"
  by (simp add: overlay_image_def exec_assoc)

lemma exec_list:
  "io_bind new_list f w = f (next_ref w) (w\<lparr>heap := (heap w)(next_ref w := []), next_ref := Suc (next_ref w)\<rparr>)"
  "io_bind (list_append r x) g w = g () (w\<lparr>heap := (heap w)(r := heap w r @ [x])\<rparr>)"
  "io_bind (list_read r) h w = h (heap w r) w"
  by (simp_all add: io_bind_def new_list_def list_append_def list_read_def)

lemma exec_gpio:
  "io_bind (remove_event_detect pin) f w =
     f () (w\<lparr>detect := (detect w)(pin := None), trace := trace w @ [RemoveEventDetect pin]\<rparr>)"
  "io_bind (add_event_detect pin) f w =
     (case detect w pin of
        Some _ \<Rightarrow> (Inl (RuntimeError pin), w)
      | None \<Rightarrow> f () (w\<lparr>detect := (detect w)(pin \<mapsto> clock w), trace := trace w @ [AddEventDetect pin]\<rparr>))"
  by (simp_all add: io_bind_def remove_event_detect_def add_event_detect_def split: option.splits)

lemma exec_misc:
  "io_bind (get_base_filename_for_images cfg env) f w =
     f (SAVE_RAW_IMAGES_FOLDER cfg @ ''/'' @
          replace (CHR '':'') (CHR ''-'') (replace (CHR '' '') (CHR ''_'')
            (split_first (CHR ''.'') (datetime_now env (clock w))))) w"
  "io_bind perf_counter g w = g (clock w) w"
  "io_bind (path_exists p) h w = h (p \<in> existing w) w"
  "io_bind (makedirs p) k w = k () (w\<lparr>existing := insert p (existing w), trace := trace w @ [Makedirs p]\<rparr>)"
  by (simp_all add: io_bind_def get_base_filename_for_images_def Let_def perf_counter_def
        path_exists_def makedirs_def)

lemmas exec = exec_ret exec_raise exec_assoc exec_then exec_then_bind exec_if exec_emit exec_sleep
  exec_for_each_Nil exec_for_each_Cons exec_image_open exec_add_overlay exec_overlay_image
  exec_list exec_gpio exec_misc py_print_def os_system_def remove_overlay_def copy2_def Let_def
  ret_def raise_def

lemma demo_config_fields:
  "REAL_PATH demo_config = ''/pb''" "CAMERA_BUTTON_PIN demo_config = 21"
  "EXIT_BUTTON_PIN demo_config = 13" "TOTAL_PICS demo_config = 2" "PREP_DELAY demo_config = 1"
  "COUNTDOWN demo_config = 1" "PHOTO_W demo_config = 1280" "PHOTO_H demo_config = 720"
  "SCREEN_W demo_config = 800" "SCREEN_H demo_config = 480" "DEBOUNCE_TIME demo_config = 1 / 20"
  "TESTMODE_AUTOPRESS_BUTTON demo_config = False" "SAVE_RAW_IMAGES_FOLDER demo_config = ''photos''"
  "PROPOSE_GPU_EFFECTS demo_config = False" "COPY_IMAGES_TO demo_config = [''usb'', ''backup'']"
  by (simp_all add: demo_config_def)

lemma demo_env_fields:
  "gpio_edges demo_env pin = []" "gpio_level demo_env pin t = 1"
  "image_size demo_env path = Some (70, 40)" "float_hsize demo_env b w h = (h * b) div w"
  "fmt_half demo_env n = str (n div 2) @ (if even n then ''.0'' else ''.5'')" "overlay_handle demo_env k = int k + 1"
  "datetime_now demo_env t = ''2017-12-31 23:59:59.123456''" "copy2_fails demo_env src dst = False"
  by (simp_all add: demo_env_def)

section \<open>The files of a session\<close>

lemma digit_char_inj:
  assumes "a < 10" "b < 10" "digit_char a = digit_char b"
  shows "a = b"
proof -
  have d: "distinct ''0123456789''" by simp
  have "a < length ''0123456789''" "b < length ''0123456789''" using assms by simp_all
  with d assms(3) show ?thesis
    unfolding digit_char_def by (simp only: nth_eq_iff_index_eq)
qed

lemma str_nat_nonempty: "str_nat n \<noteq> []"
  by (subst str_nat.simps) simp

lemma str_nat_inj: "str_nat m = str_nat n \<Longrightarrow> m = n"
proof (induction m arbitrary: n rule: str_nat.induct)
  case (1 m)
  show ?case
  proof (cases "m < 10")
    case True
    show ?thesis
    proof (cases "n < 10")
      case n: True
      from "1.prems" True n have "digit_char m = digit_char n"
        by (simp add: str_nat.simps [of m] str_nat.simps [of n])
      with True n show ?thesis by (rule digit_char_inj)
    next
      case n: False
      from "1.prems" True n have "[digit_char m] = str_nat (n div 10) @ [digit_char (n mod 10)]"
        by (simp add: str_nat.simps [of m] str_nat.simps [of n])
      then have "str_nat (n div 10) = []" by (simp add: Cons_eq_append_conv)
      with str_nat_nonempty show ?thesis by blast
    qed
  next
    case False
    show ?thesis
    proof (cases "n < 10")
      case n: True
      from "1.prems" False n have "str_nat (m div 10) @ [digit_char (m mod 10)] = [digit_char n]"
        by (simp add: str_nat.simps [of m] str_nat.simps [of n])
      then have "str_nat (m div 10) = []" by (simp add: append_eq_Cons_conv)
      with str_nat_nonempty show ?thesis by blast
    next
      case n: False
      from "1.prems" False n
      have "str_nat (m div 10) @ [digit_char (m mod 10)] = str_nat (n div 10) @ [digit_char (n mod 10)]"
        by (simp add: str_nat.simps [of m] str_nat.simps [of n])
      then have a: "str_nat (m div 10) = str_nat (n div 10)"
        and b: "digit_char (m mod 10) = digit_char (n mod 10)" by simp_all
      from "1.IH" [OF False a] have q: "m div 10 = n div 10" .
      have "m mod 10 = n mod 10" by (rule digit_char_inj [OF _ _ b]) simp_all
      with q show ?thesis by (metis div_mult_mod_eq)
    qed
  qed
qed

lemma str_inj_nonneg: "0 \<le> i \<Longrightarrow> 0 \<le> j \<Longrightarrow> str i = str j \<Longrightarrow> i = j"
  using str_nat_inj [of "nat i" "nat j"] by (simp add: str_def)

lemma raw_names_distinct:
  "distinct (map (\<lambda>n. base @ ''_'' @ str n @ ''of'' @ t @ ''.jpg'') [1..N] @ [base @ ''.jpg''])"
proof -
  let ?F = "\<lambda>n. base @ ''_'' @ str n @ ''of'' @ t @ ''.jpg''"
  have inj: "inj_on ?F (set [1..N])"
  proof (rule inj_onI)
    fix i j assume i: "i \<in> set [1..N]" and j: "j \<in> set [1..N]" and e: "?F i = ?F j"
    from e have "str i @ (''of'' @ t @ ''.jpg'') = str j @ (''of'' @ t @ ''.jpg'')" by simp
    then have "str i = str j" by (simp only: append_same_eq)
    with i j show "i = j" by (intro str_inj_nonneg) auto
  qed
  have "distinct (map ?F [1..N])" using inj by (simp add: distinct_map)
  moreover have "base @ ''.jpg'' \<notin> set (map ?F [1..N])" by auto
  ultimately show ?thesis by simp
qed

lemma session_demo_runs:
  "fst (session demo_config demo_env \<lparr>var_i = 0, var_overlay_1 = 1, var_overlay_2 = 2\<rparr> initial_world) =
     Inr (Continue, \<lparr>var_i = 0, var_overlay_1 = 10, var_overlay_2 = 11\<rparr>)"
  by (simp add: session_def capture_photos_def archive_photos_def playback_screen_def
        taking_photo_def prep_for_photo_screen_def exec range_up_def range_down_def upto.simps
        demo_config_fields demo_env_fields initial_world_def)

lemma session_demo_files:
  "captured (trace (snd (session demo_config demo_env \<lparr>var_i = 0, var_overlay_1 = 1, var_overlay_2 = 2\<rparr> initial_world))) =
     [''photos/2017-12-31_23-59-59_1of2.jpg'', ''photos/2017-12-31_23-59-59_2of2.jpg'']
   \<and> commands (trace (snd (session demo_config demo_env \<lparr>var_i = 0, var_overlay_1 = 1, var_overlay_2 = 2\<rparr> initial_world))) =
     [''montage photos/2017-12-31_23-59-59* -geometry 640.0x360.0 photos/2017-12-31_23-59-59.jpg'']
   \<and> copies (trace (snd (session demo_config demo_env \<lparr>var_i = 0, var_overlay_1 = 1, var_overlay_2 = 2\<rparr> initial_world))) =
     [(''photos/2017-12-31_23-59-59_1of2.jpg'', ''usb''), (''photos/2017-12-31_23-59-59_2of2.jpg'', ''usb''),
      (''photos/2017-12-31_23-59-59.jpg'', ''usb''),
      (''photos/2017-12-31_23-59-59_1of2.jpg'', ''backup''), (''photos/2017-12-31_23-59-59_2of2.jpg'', ''backup''),
      (''photos/2017-12-31_23-59-59.jpg'', ''backup'')]"
  by (simp add: session_def capture_photos_def archive_photos_def playback_screen_def
        taking_photo_def prep_for_photo_screen_def exec range_up_def range_down_def upto.simps
        demo_config_fields demo_env_fields initial_world_def
        split_first_def replace_def str_def str_nat.simps digit_char_def)

text \<open>
  C1. A session that completes asks the camera for exactly \<open>N\<close> stills, \<open>N\<close> the configured
  photo count, named \<open>base_iofN.jpg\<close> for \<open>i\<close> from 1 to \<open>N\<close> with one \<open>base\<close> for all
  of them, and runs exactly one montage command, whose output file is \<open>base.jpg\<close>; these
  \<open>N + 1\<close> names are pairwise distinct. (For \<open>N < 1\<close> the list of stills is empty.)
\<close>

theorem session_writes_photos_and_montage:
  assumes "fst (session cfg env st w) = Inr out"
  shows "\<exists>base.
      captured (trace (snd (session cfg env st w))) = captured (trace w) @
        map (\<lambda>i. base @ ''_'' @ str i @ ''of'' @ str (TOTAL_PICS cfg) @ ''.jpg'') [1..TOTAL_PICS cfg]
    \<and> length (map (\<lambda>i. base @ ''_'' @ str i @ ''of'' @ str (TOTAL_PICS cfg) @ ''.jpg'') [1..TOTAL_PICS cfg])
        = nat (TOTAL_PICS cfg)
    \<and> commands (trace (snd (session cfg env st w))) = commands (trace w) @
        [''montage '' @ base @ ''* -geometry '' @ fmt_half env (PHOTO_W cfg)
           @ ''x'' @ fmt_half env (PHOTO_H cfg) @ '' '' @ base @ ''.jpg'']
    \<and> distinct (map (\<lambda>i. base @ ''_'' @ str i @ ''of'' @ str (TOTAL_PICS cfg) @ ''.jpg'') [1..TOTAL_PICS cfg]
                  @ [base @ ''.jpg''])"
proof -
  from assms have run: "session cfg env st w = (Inr out, snd (session cfg env st w))"
    by (simp add: prod_eq_iff)
  from session_footprint [OF run] obtain base where
    c: "captured (trace (snd (session cfg env st w))) = captured (trace w) @
        map (\<lambda>i. base @ ''_'' @ str i @ ''of'' @ str (TOTAL_PICS cfg) @ ''.jpg'') [1..TOTAL_PICS cfg]"
    and s: "commands (trace (snd (session cfg env st w))) = commands (trace w) @
        [''montage '' @ base @ ''* -geometry '' @ fmt_half env (PHOTO_W cfg)
           @ ''x'' @ fmt_half env (PHOTO_H cfg) @ '' '' @ base @ ''.jpg'']"
    by blast
  have l: "length (map (\<lambda>i. base @ ''_'' @ str i @ ''of'' @ str (TOTAL_PICS cfg) @ ''.jpg'') [1..TOTAL_PICS cfg])
        = nat (TOTAL_PICS cfg)" by simp
  note d = raw_names_distinct [of base "str (TOTAL_PICS cfg)" "TOTAL_PICS cfg"]
  from c l s d show ?thesis by blast
qed

theorem session_writes_photos_and_montage_witness:
  "fst (session demo_config demo_env \<lparr>var_i = 0, var_overlay_1 = 1, var_overlay_2 = 2\<rparr> initial_world) =
     Inr (Continue, \<lparr>var_i = 0, var_overlay_1 = 10, var_overlay_2 = 11\<rparr>)
   \<and> (\<exists>base.
      captured (trace (snd (session demo_config demo_env \<lparr>var_i = 0, var_overlay_1 = 1, var_overlay_2 = 2\<rparr> initial_world))) =
        captured (trace initial_world) @
        map (\<lambda>i. base @ ''_'' @ str i @ ''of'' @ str (TOTAL_PICS demo_config) @ ''.jpg'') [1..TOTAL_PICS demo_config]
    \<and> distinct (map (\<lambda>i. base @ ''_'' @ str i @ ''of'' @ str (TOTAL_PICS demo_config) @ ''.jpg'') [1..TOTAL_PICS demo_config]
                  @ [base @ ''.jpg'']))
   \<and> captured (trace (snd (session demo_config demo_env \<lparr>var_i = 0, var_overlay_1 = 1, var_overlay_2 = 2\<rparr> initial_world))) =
     [''photos/2017-12-31_23-59-59_1of2.jpg'', ''photos/2017-12-31_23-59-59_2of2.jpg'']
   \<and> commands (trace (snd (session demo_config demo_env \<lparr>var_i = 0, var_overlay_1 = 1, var_overlay_2 = 2\<rparr> initial_world))) =
     [''montage photos/2017-12-31_23-59-59* -geometry 640.0x360.0 photos/2017-12-31_23-59-59.jpg'']"
proof -
  note run = session_demo_runs
  from session_writes_photos_and_montage [OF run] obtain base where
    "captured (trace (snd (session demo_config demo_env \<lparr>var_i = 0, var_overlay_1 = 1, var_overlay_2 = 2\<rparr> initial_world))) =
        captured (trace initial_world) @
        map (\<lambda>i. base @ ''_'' @ str i @ ''of'' @ str (TOTAL_PICS demo_config) @ ''.jpg'') [1..TOTAL_PICS demo_config]"
    "distinct (map (\<lambda>i. base @ ''_'' @ str i @ ''of'' @ str (TOTAL_PICS demo_config) @ ''.jpg'') [1..TOTAL_PICS demo_config]
                  @ [base @ ''.jpg''])"
    by blast
  with run session_demo_files show ?thesis by blast
qed

section \<open>Archiving\<close>

text \<open>
  C3, as the program has it. \<^verbatim>\<open>playback_screen\<close> appends the montage to the very list
  that \<^verbatim>\<open>main\<close> later copies from, so in a session that completes every destination
  folder, in configured order, receives the \<open>N\<close> raw photos and then the montage: each of
  these \<open>N + 1\<close> files is handed to \<^verbatim>\<open>copy2\<close> together with the destination folder
  itself, which is how \<^verbatim>\<open>copy2\<close> is asked to keep the name of the source.
\<close>

theorem session_archives_photos_and_montage:
  assumes "fst (session cfg env st w) = Inr out"
  shows "\<exists>base.
      captured (trace (snd (session cfg env st w))) = captured (trace w) @
        map (\<lambda>i. base @ ''_'' @ str i @ ''of'' @ str (TOTAL_PICS cfg) @ ''.jpg'') [1..TOTAL_PICS cfg]
    \<and> commands (trace (snd (session cfg env st w))) = commands (trace w) @
        [''montage '' @ base @ ''* -geometry '' @ fmt_half env (PHOTO_W cfg)
           @ ''x'' @ fmt_half env (PHOTO_H cfg) @ '' '' @ base @ ''.jpg'']
    \<and> copies (trace (snd (session cfg env st w))) = copies (trace w) @
        concat (map (\<lambda>dest. map (\<lambda>src. (src, dest))
          (map (\<lambda>i. base @ ''_'' @ str i @ ''of'' @ str (TOTAL_PICS cfg) @ ''.jpg'') [1..TOTAL_PICS cfg]
             @ [base @ ''.jpg''])) (COPY_IMAGES_TO cfg))"
proof -
  from assms have run: "session cfg env st w = (Inr out, snd (session cfg env st w))"
    by (simp add: prod_eq_iff)
  show ?thesis by (rule session_footprint [OF run])
qed

theorem session_archives_photos_and_montage_witness:
  "fst (session demo_config demo_env \<lparr>var_i = 0, var_overlay_1 = 1, var_overlay_2 = 2\<rparr> initial_world) =
     Inr (Continue, \<lparr>var_i = 0, var_overlay_1 = 10, var_overlay_2 = 11\<rparr>)
   \<and> (\<exists>base.
      copies (trace (snd (session demo_config demo_env \<lparr>var_i = 0, var_overlay_1 = 1, var_overlay_2 = 2\<rparr> initial_world))) =
        copies (trace initial_world) @
        concat (map (\<lambda>dest. map (\<lambda>src. (src, dest))
          (map (\<lambda>i. base @ ''_'' @ str i @ ''of'' @ str (TOTAL_PICS demo_config) @ ''.jpg'') [1..TOTAL_PICS demo_config]
             @ [base @ ''.jpg''])) (COPY_IMAGES_TO demo_config)))
   \<and> copies (trace (snd (session demo_config demo_env \<lparr>var_i = 0, var_overlay_1 = 1, var_overlay_2 = 2\<rparr> initial_world))) =
     [(''photos/2017-12-31_23-59-59_1of2.jpg'', ''usb''), (''photos/2017-12-31_23-59-59_2of2.jpg'', ''usb''),
      (''photos/2017-12-31_23-59-59.jpg'', ''usb''),
      (''photos/2017-12-31_23-59-59_1of2.jpg'', ''backup''), (''photos/2017-12-31_23-59-59_2of2.jpg'', ''backup''),
      (''photos/2017-12-31_23-59-59.jpg'', ''backup'')]"
proof -
  note run = session_demo_runs
  from session_archives_photos_and_montage [OF run] obtain base where
    "copies (trace (snd (session demo_config demo_env \<lparr>var_i = 0, var_overlay_1 = 1, var_overlay_2 = 2\<rparr> initial_world))) =
        copies (trace initial_world) @
        concat (map (\<lambda>dest. map (\<lambda>src. (src, dest))
          (map (\<lambda>i. base @ ''_'' @ str i @ ''of'' @ str (TOTAL_PICS demo_config) @ ''.jpg'') [1..TOTAL_PICS demo_config]
             @ [base @ ''.jpg''])) (COPY_IMAGES_TO demo_config))"
    by blast
  with run session_demo_files show ?thesis by blast
qed

text \<open>
  The claim as stated (the montage is not copied) fails on the concrete booth: the file
  the montage command writes, which is none of the captured photos, is copied to
  \<^verbatim>\<open>usb\<close>.
\<close>

theorem archive_copies_montage:
  "commands (trace (snd (session demo_config demo_env \<lparr>var_i = 0, var_overlay_1 = 1, var_overlay_2 = 2\<rparr> initial_world))) =
     [''montage photos/2017-12-31_23-59-59* -geometry 640.0x360.0 photos/2017-12-31_23-59-59.jpg'']
   \<and> ''photos/2017-12-31_23-59-59.jpg'' \<notin> set (captured (trace (snd (session demo_config demo_env \<lparr>var_i = 0, var_overlay_1 = 1, var_overlay_2 = 2\<rparr> initial_world))))
   \<and> (''photos/2017-12-31_23-59-59.jpg'', ''usb'') \<in> set (copies (trace (snd (session demo_config demo_env \<lparr>var_i = 0, var_overlay_1 = 1, var_overlay_2 = 2\<rparr> initial_world))))"
  using session_demo_files by simp

text \<open>
  C4, as the program has it. The copies are attempted destination by destination and,
  within a destination, file by file; nothing catches a failure of \<^verbatim>\<open>copy2\<close>. So
  the attempts made are the pairs up to and including the first one that fails (all
  pairs when none fails), and the loops raise the error of that first failing pair, or
  return normally when no pair fails.
\<close>

theorem archive_photos_stops_at_failure:
  "(let pairs = concat (map (\<lambda>dest. map (\<lambda>src. (src, dest)) (heap w photo_filenames)) (COPY_IMAGES_TO cfg))
    in copies (trace (snd (archive_photos cfg env photo_filenames w))) =
         copies (trace w) @ take (Suc (length (takeWhile (\<lambda>(src, dest). \<not> copy2_fails env src dest) pairs))) pairs
     \<and> fst (archive_photos cfg env photo_filenames w) =
         (case List.find (\<lambda>(src, dest). copy2_fails env src dest) pairs of
            None \<Rightarrow> Inr () | Some (src, dest) \<Rightarrow> Inl (CopyError src dest)))"
  using archive_photos_result [of cfg env photo_filenames w]
  by (simp add: footprint_def until_failure_def Let_def)

text \<open>
  The claim as stated fails where copying to the first destination fails: the copy to
  the second destination is never attempted.
\<close>

theorem archive_photos_failure_skips_rest:
  "copy2_fails failing_env ''a.jpg'' ''usb''
   \<and> ''backup'' \<in> set (COPY_IMAGES_TO demo_config)
   \<and> ''a.jpg'' \<in> set (heap one_photo_world 0)
   \<and> archive_photos demo_config failing_env 0 one_photo_world =
       (Inl (CopyError ''a.jpg'' ''usb''),
        one_photo_world\<lparr>trace := [Print ''a.jpg -> usb'', Copy2 ''a.jpg'' ''usb'']\<rparr>)
   \<and> (''a.jpg'', ''backup'') \<notin> set (copies (trace (snd (archive_photos demo_config failing_env 0 one_photo_world))))"
  by (simp add: archive_photos_def exec exec_then [of _ _ one_photo_world] demo_config_fields
        failing_env_def one_photo_world_def initial_world_def io_bind_def io_then_def emit_def list_read_def)

section \<open>The folder check\<close>

text \<open>
  C9. \<^verbatim>\<open>health_test_required_folders\<close> finds a folder that is configured twice and
  prints that it cannot be used twice, but it neither raises nor exits: with the raw-image
  folder named again as an archive destination, the check returns normally and
  \<^verbatim>\<open>main\<close> goes on to show the intro screen, arm the buttons and enter its loop.
\<close>

theorem health_test_accepts_duplicate_folder:
  "SAVE_RAW_IMAGES_FOLDER duplicate_config \<in> set (COPY_IMAGES_TO duplicate_config)
   \<and> health_test_required_folders duplicate_config initial_world =
       (Inr (), initial_world\<lparr>existing := {''photos''},
          trace := [Print ''Creating folder: photos'', Makedirs ''photos'',
                    Print ''ERROR: Cannot use same folder path (photos) twice. Refer config file.'']\<rparr>)
   \<and> fst (main_start duplicate_config demo_env initial_world) =
       Inr \<lparr>var_i = 0, var_overlay_1 = 1, var_overlay_2 = 2\<rparr>"
  by (simp add: health_test_required_folders_def main_start_def exec
        duplicate_config_def demo_config_def demo_env_fields initial_world_def)

section \<open>Removing overlays\<close>

lemma removed_append [simp]: "removed (xs @ ys) = removed xs @ removed ys"
  by (induction xs) simp_all

lemma stillD: "still m \<Longrightarrow> m w = (r, w') \<Longrightarrow> ledger w' = ledger w"
  by (auto simp: still_def dest: spec [of _ w])

lemma still_ret: "still (ret x)"
  by (simp add: still_def ret_def)

lemma still_raise: "still (raise e)"
  by (simp add: still_def raise_def)

lemma still_bind: "still m \<Longrightarrow> (\<And>x. still (f x)) \<Longrightarrow> still (io_bind m f)"
  unfolding still_def io_bind_def
proof
  fix w
  assume m: "\<forall>w. ledger (snd (m w)) = ledger w"
    and f: "\<And>x. \<forall>w. ledger (snd (f x w)) = ledger w"
  obtain r w1 where mw: "m w = (r, w1)" by (cases "m w")
  from m have w1: "ledger w1 = ledger w" using mw by (metis snd_conv)
  show "ledger (snd (case m w of (Inl e, w') \<Rightarrow> (Inl e, w') | (Inr x, w') \<Rightarrow> f x w')) = ledger w"
  proof (cases r)
    case (Inl e)
    with mw w1 show ?thesis by simp
  next
    case (Inr x)
    with mw w1 f [of x] show ?thesis by simp
  qed
qed

lemma still_then: "still m \<Longrightarrow> still k \<Longrightarrow> still (io_then m k)"
  by (simp add: io_then_def still_bind)

lemma still_if: "still a \<Longrightarrow> still b \<Longrightarrow> still (if c then a else b)"
  by simp

lemma still_for_each: "(\<And>x. still (body x)) \<Longrightarrow> still (for_each xs body)"
  by (induction xs) (simp_all add: still_ret still_then)

lemma still_prims:
  "still (py_print s)" "still (sleep d)" "still perf_counter" "still (image_open env path)"
  "still (add_event_detect pin)" "still (remove_event_detect pin)"
  "still (event_detected env pin)" "still (gpio_input env pin)"
  "still (emit (SetImageEffect s))" "still (emit (SetAnnotateText s))" "still (emit (Capture p))"
  "still (os_system c)" "still (copy2 env src dst)"
  "still new_list" "still (list_append ref x)" "still (list_read ref)"
  by (auto simp: still_def ledger_def py_print_def emit_def sleep_def raise_def perf_counter_def
        image_open_def ret_def add_event_detect_def remove_event_detect_def event_detected_def
        gpio_input_def os_system_def copy2_def new_list_def list_append_def list_read_def
        io_then_def io_bind_def Let_def
        split: option.splits)

lemmas still_intros = still_ret still_raise still_bind still_then still_if still_for_each still_prims

lemma still_poll_button: "still (poll_button cfg env pin)"
  by (simp add: poll_button_def still_intros)

lemma still_get_base: "still (get_base_filename_for_images cfg env)"
  by (simp add: still_def get_base_filename_for_images_def Let_def)

lemma still_archive_photos: "still (archive_photos cfg env ref)"
  by (simp add: archive_photos_def still_intros)

lemma still_preview_window: "still (preview_window cfg env tic)"
  unfolding still_def
proof
  fix w
  show "ledger (snd (preview_window cfg env tic w)) = ledger w"
  proof (induction cfg env tic w rule: preview_window.induct)
    case (1 cfg env tic w)
    show ?case
    proof (cases "clock w - tic < 2")
      case False
      then show ?thesis by (simp add: preview_window.simps [of cfg env tic w])
    next
      case True
      obtain r w1 where p: "poll_button cfg env (CAMERA_BUTTON_PIN cfg) w = (r, w1)"
        by (cases "poll_button cfg env (CAMERA_BUTTON_PIN cfg) w")
      have f1: "ledger w1 = ledger w" by (rule stillD [OF still_poll_button p])
      show ?thesis
      proof (cases r)
        case (Inl e)
        with True p f1 show ?thesis by (simp add: preview_window.simps [of cfg env tic w])
      next
        case (Inr b)
        show ?thesis
        proof (cases "b = Some True")
          case True
          have "ledger (snd (emit (SetImageEffect ''sketch'') w1)) = ledger w1"
            using still_prims(9) by (simp add: still_def)
          with \<open>clock w - tic < 2\<close> p Inr True f1 show ?thesis
            by (simp add: preview_window.simps [of cfg env tic w])
        next
          case False
          obtain r2 w2 where s: "sleep (1 / 10) w1 = (r2, w2)" by (cases "sleep (1 / 10) w1")
          have f2: "ledger w2 = ledger w1" by (rule stillD [OF still_prims(2) s])
          show ?thesis
          proof (cases r2)
            case (Inl e)
            with \<open>clock w - tic < 2\<close> p Inr False s f1 f2 show ?thesis
              by (simp add: preview_window.simps [of cfg env tic w])
          next
            case (Inr u)
            have "ledger (snd (preview_window cfg env tic w2)) = ledger w2"
              using "1.IH" [OF \<open>clock w - tic < 2\<close> p [symmetric] \<open>r = Inr b\<close> False s [symmetric] Inr] .
            with \<open>clock w - tic < 2\<close> p \<open>r = Inr b\<close> False s Inr f1 f2 show ?thesis
              by (simp add: preview_window.simps [of cfg env tic w])
          qed
        qed
      qed
    qed
  qed
qed

lemma overlay_image_ledger:
  assumes "overlay_image cfg env path layer mode w = (Inr h, w')"
  shows "h = overlay_handle env (overlays_added w)
       \<and> ledger w' = (Suc (overlays_added w), removed (trace w))"
  using assms
  by (auto simp: overlay_image_def image_open_def io_bind_def ret_def raise_def add_overlay_def
        ledger_def Let_def split: option.splits)

lemma remove_overlay_ledger:
  assumes "remove_overlay h w = (r, w')"
  shows "ledger w' = (overlays_added w, removed (trace w) @ filter (\<lambda>h. h \<noteq> - 1) [h])"
  using assms by (auto simp: remove_overlay_def emit_def ret_def ledger_def)

lemma handles_0 [simp]: "handles env a 0 = []"
  by (simp add: handles_def)

lemma handles_Suc: "handles env a (Suc n) = overlay_handle env a # handles env (Suc a) n"
  unfolding handles_def by (subst upt_rec) simp

lemma handles_1: "handles env a (Suc 0) = [overlay_handle env a]"
  by (simp add: handles_Suc)

lemma handles_add: "handles env a (m + n) = handles env a m @ handles env (a + m) n"
  by (induction m arbitrary: a) (simp_all add: handles_Suc)

lemma length_handles [simp]: "length (handles env a n) = n"
  by (simp add: handles_def)

lemma countdown_loop_ledger:
  assumes "for_each xs (\<lambda>counter.
              let countdown_image = REAL_PATH cfg @ ''/assets/countdown_'' @ str counter @ ''.png''
              in io_bind (overlay_image cfg env countdown_image 5 ''RGBA'') (\<lambda>countdown_overlay.
                 io_then (py_print ('' ...'' @ str counter))
                (io_then (sleep 1)
                         (remove_overlay countdown_overlay)))) w = (Inr u, w')"
  shows "ledger w' = (overlays_added w + length xs,
            removed (trace w) @ filter (\<lambda>h. h \<noteq> - 1)
              (handles env (overlays_added w) (length xs)))"
  using assms
proof (induction xs arbitrary: w)
  case Nil
  then show ?case by (simp add: ret_def ledger_def)
next
  case (Cons c xs)
  let ?body = "\<lambda>counter.
              let countdown_image = REAL_PATH cfg @ ''/assets/countdown_'' @ str counter @ ''.png''
              in io_bind (overlay_image cfg env countdown_image 5 ''RGBA'') (\<lambda>countdown_overlay.
                 io_then (py_print ('' ...'' @ str counter))
                (io_then (sleep 1)
                         (remove_overlay countdown_overlay)))"
  obtain h w1 w2 w3 w4 where
        a1: "overlay_image cfg env (REAL_PATH cfg @ ''/assets/countdown_'' @ str c @ ''.png'') 5 ''RGBA'' w = (Inr h, w1)"
    and a2: "py_print ('' ...'' @ str c) w1 = (Inr (), w2)"
    and a3: "sleep 1 w2 = (Inr (), w3)"
    and a4: "remove_overlay h w3 = (Inr (), w4)"
    and rest: "for_each xs ?body w4 = (Inr u, w')"
    using Cons.prems by (auto simp: io_then_Inr io_bind_Inr Let_def)
  note l1 = overlay_image_ledger [OF a1]
  have l2: "ledger w2 = ledger w1" by (rule stillD [OF still_prims(1) a2])
  have l3: "ledger w3 = ledger w2" by (rule stillD [OF still_prims(2) a3])
  note l4 = remove_overlay_ledger [OF a4]
  have o3: "overlays_added w3 = Suc (overlays_added w)" "removed (trace w3) = removed (trace w)"
    using l1 l2 l3 by (simp_all add: ledger_def)
  have l: "ledger w4 = (Suc (overlays_added w),
      removed (trace w) @ filter (\<lambda>h. h \<noteq> - 1) [overlay_handle env (overlays_added w)])"
    using l1 l4 o3 by simp
  then have o4: "overlays_added w4 = Suc (overlays_added w)"
    "removed (trace w4) = removed (trace w) @ filter (\<lambda>h. h \<noteq> - 1) [overlay_handle env (overlays_added w)]"
    by (simp_all add: ledger_def)
  show ?case
    using Cons.IH [OF rest] o4
    by (simp add: handles_Suc)
qed


lemma length_range_down: "length (range_down c 0) = nat c"
  by (simp add: range_down_def)

lemma length_range_up: "length (range_up 1 (n + 1)) = nat n"
  by (simp add: range_up_def)

lemma taking_photo_ledger:
  assumes "taking_photo cfg env n prefix w = (Inr fname, w')"
  shows "ledger w' = (overlays_added w + nat (COUNTDOWN cfg),
            removed (trace w) @ filter (\<lambda>h. h \<noteq> - 1)
              (handles env (overlays_added w) (nat (COUNTDOWN cfg))))"
proof -
  let ?F = "prefix @ ''_'' @ str n @ ''of'' @ str (TOTAL_PICS cfg) @ ''.jpg''"
  let ?loop = "for_each (range_down (COUNTDOWN cfg) 0) (\<lambda>counter.
              let countdown_image = REAL_PATH cfg @ ''/assets/countdown_'' @ str counter @ ''.png''
              in io_bind (overlay_image cfg env countdown_image 5 ''RGBA'') (\<lambda>countdown_overlay.
                 io_then (py_print ('' ...'' @ str counter))
                (io_then (sleep 1)
                         (remove_overlay countdown_overlay))))"
  obtain w1 w2 w3 w4 w5 where a1: "?loop w = (Inr (), w1)"
    and a2: "sleep (1 / 2) w1 = (Inr (), w2)"
    and a3: "emit (SetAnnotateText []) w2 = (Inr (), w3)"
    and a4: "emit (Capture ?F) w3 = (Inr (), w4)"
    and a5: "py_print (''Photo ('' @ str n @ '') saved: '' @ ?F) w4 = (Inr (), w5)"
    and r5: "ret ?F w5 = (Inr fname, w')"
    using assms unfolding taking_photo_def Let_def by (auto simp: io_then_Inr)
  note l1 = countdown_loop_ledger [OF a1]
  have l2: "ledger w2 = ledger w1" by (rule stillD [OF still_prims(2) a2])
  have l3: "ledger w3 = ledger w2" by (rule stillD [OF still_prims(10) a3])
  have l4: "ledger w4 = ledger w3" by (rule stillD [OF still_prims(11) a4])
  have l5: "ledger w5 = ledger w4" by (rule stillD [OF still_prims(1) a5])
  from r5 have e: "w' = w5" by (simp add: ret_def)
  show ?thesis using l1 l2 l3 l4 l5 e by (simp add: length_range_down)
qed

lemma capture_loop_ledger:
  assumes "for_each xs (\<lambda>photo_number.
       io_bind (prep_for_photo_screen cfg env photo_number) (\<lambda>ol_id.
       io_then (sleep (PREP_DELAY cfg))
      (io_then (remove_overlay ol_id)
      (io_bind (taking_photo cfg env photo_number prefix) (\<lambda>fname.
               list_append ref fname))))) w = (Inr u, w')"
  shows "ledger w' = (overlays_added w + length xs * Suc (nat (COUNTDOWN cfg)),
            removed (trace w) @ filter (\<lambda>h. h \<noteq> - 1)
              (handles env (overlays_added w) (length xs * Suc (nat (COUNTDOWN cfg)))))"
  using assms
proof (induction xs arbitrary: w)
  case Nil
  then show ?case by (simp add: ret_def ledger_def)
next
  case (Cons n xs)
  let ?body = "\<lambda>photo_number.
       io_bind (prep_for_photo_screen cfg env photo_number) (\<lambda>ol_id.
       io_then (sleep (PREP_DELAY cfg))
      (io_then (remove_overlay ol_id)
      (io_bind (taking_photo cfg env photo_number prefix) (\<lambda>fname.
               list_append ref fname))))"
  define K where "K = nat (COUNTDOWN cfg)"
  define a where "a = overlays_added w"
  obtain ol_id w1 w2 w3 fname w4 w5 where a1: "prep_for_photo_screen cfg env n w = (Inr ol_id, w1)"
    and a2: "sleep (PREP_DELAY cfg) w1 = (Inr (), w2)"
    and a3: "remove_overlay ol_id w2 = (Inr (), w3)"
    and a4: "taking_photo cfg env n prefix w3 = (Inr fname, w4)"
    and a5: "list_append ref fname w4 = (Inr (), w5)"
    and rest: "for_each xs ?body w5 = (Inr u, w')"
    using Cons.prems by (auto simp: io_then_Inr io_bind_Inr)
  have l1: "ol_id = overlay_handle env a" "ledger w1 = (Suc a, removed (trace w))"
    using a1 overlay_image_ledger [of cfg env _ 5 "''RGB''" w ol_id w1]
    by (simp_all add: prep_for_photo_screen_def Let_def a_def)
  have l2: "ledger w2 = ledger w1" by (rule stillD [OF still_prims(2) a2])
  have o2: "overlays_added w2 = Suc a" "removed (trace w2) = removed (trace w)"
    using l1 l2 by (simp_all add: ledger_def)
  have l3: "ledger w3 = (Suc a, removed (trace w) @ filter (\<lambda>h. h \<noteq> - 1) [overlay_handle env a])"
    using remove_overlay_ledger [OF a3] o2 l1(1) by simp
  then have o3: "overlays_added w3 = Suc a"
    "removed (trace w3) = removed (trace w) @ filter (\<lambda>h. h \<noteq> - 1) [overlay_handle env a]"
    by (simp_all add: ledger_def)
  have l4: "ledger w4 = (Suc a + K, removed (trace w) @ filter (\<lambda>h. h \<noteq> - 1) (handles env a (Suc K)))"
    using taking_photo_ledger [OF a4] o3 by (simp add: K_def handles_Suc)
  have l5: "ledger w5 = ledger w4" by (rule stillD [OF still_prims(15) a5])
  have o5: "overlays_added w5 = a + Suc K"
    "removed (trace w5) = removed (trace w) @ filter (\<lambda>h. h \<noteq> - 1) (handles env a (Suc K))"
    using l4 l5 by (simp_all add: ledger_def)
  define m where "m = length xs * Suc K"
  have e: "length (n # xs) * Suc (nat (COUNTDOWN cfg)) = Suc K + m" by (simp add: m_def K_def)
  have ih: "ledger w' = (overlays_added w5 + m,
      removed (trace w5) @ filter (\<lambda>h. h \<noteq> - 1) (handles env (overlays_added w5) m))"
    using Cons.IH [OF rest] by (simp add: m_def K_def)
  show ?case
    unfolding e a_def [symmetric] handles_add using ih o5 by simp
qed

lemma capture_photos_ledger:
  assumes "capture_photos cfg env prefix ref w = (Inr u, w')"
  shows "ledger w' = (overlays_added w + nat (TOTAL_PICS cfg) * Suc (nat (COUNTDOWN cfg)),
            removed (trace w) @ filter (\<lambda>h. h \<noteq> - 1)
              (handles env (overlays_added w) (nat (TOTAL_PICS cfg) * Suc (nat (COUNTDOWN cfg)))))"
  using capture_loop_ledger [of "range_up 1 (TOTAL_PICS cfg + 1)" cfg env prefix ref w u w'] assms
  unfolding capture_photos_def length_range_up by simp

lemma playback_loop_ledger:
  assumes "playback_loop cfg env montage files prev w = (Inr last_overlay, w')"
  shows "ledger w' = (overlays_added w + length files,
            removed (trace w) @ filter (\<lambda>h. h \<noteq> 0 \<and> h \<noteq> - 1)
              (butlast (prev # handles env (overlays_added w) (length files))))
       \<and> last_overlay = last (prev # handles env (overlays_added w) (length files))"
  using assms
proof (induction files arbitrary: prev w)
  case Nil
  then show ?case by (simp add: ret_def ledger_def)
next
  case (Cons f files)
  define a where "a = overlays_added w"
  obtain this w1 w2 w3 where
        a1: "overlay_image cfg env f 6 ''RGB'' w = (Inr this, w1)"
    and a2: "(if prev \<noteq> 0 then remove_overlay prev else ret ()) w1 = (Inr (), w2)"
    and a3: "(if f = montage then sleep 6 else sleep 2) w2 = (Inr (), w3)"
    and rest: "playback_loop cfg env montage files this w3 = (Inr last_overlay, w')"
    using Cons.prems by (auto simp: io_then_Inr io_bind_Inr)
  have l1: "this = overlay_handle env a" "ledger w1 = (Suc a, removed (trace w))"
    using overlay_image_ledger [OF a1] by (simp_all add: a_def)
  then have o1: "overlays_added w1 = Suc a" "removed (trace w1) = removed (trace w)"
    by (simp_all add: ledger_def)
  have l2: "ledger w2 = (Suc a, removed (trace w) @ filter (\<lambda>h. h \<noteq> 0 \<and> h \<noteq> - 1) [prev])"
  proof (cases "prev = 0")
    case True
    with a2 have "w2 = w1" by (simp add: ret_def)
    with True l1 show ?thesis by simp
  next
    case False
    with a2 have "remove_overlay prev w1 = (Inr (), w2)" by simp
    from remove_overlay_ledger [OF this] False o1 show ?thesis by simp
  qed
  have "still (if f = montage then sleep 6 else sleep 2)" by (simp add: still_prims)
  from stillD [OF this a3] have l3: "ledger w3 = ledger w2" .
  have o3: "overlays_added w3 = Suc a"
    "removed (trace w3) = removed (trace w) @ filter (\<lambda>h. h \<noteq> 0 \<and> h \<noteq> - 1) [prev]"
    using l2 l3 by (simp_all add: ledger_def)
  show ?case
    using Cons.IH [OF rest] unfolding o3 l1(1) a_def [symmetric]
    by (simp add: handles_Suc)
qed

lemma handles_snoc: "handles env a (Suc n) = handles env a n @ [overlay_handle env (a + n)]"
  using handles_add [of env a n "Suc 0"] by (simp add: handles_1)

lemma playback_screen_ledger:
  assumes "playback_screen cfg env prefix ref w = (Inr ol_done, w')"
  shows "ledger w' = (overlays_added w + length (heap w ref) + 3,
            removed (trace w)
            @ filter (\<lambda>h. h \<noteq> 0 \<and> h \<noteq> - 1) (handles env (overlays_added w) (Suc (length (heap w ref))))
            @ filter (\<lambda>h. h \<noteq> - 1) [overlay_handle env (overlays_added w + Suc (length (heap w ref)))])
       \<and> ol_done = overlay_handle env (overlays_added w + length (heap w ref) + 2)"
proof -
  let ?cmd = "''montage '' @ prefix @ ''* -geometry '' @ fmt_half env (PHOTO_W cfg)
                        @ ''x'' @ fmt_half env (PHOTO_H cfg) @ '' '' @ prefix @ ''.jpg''"
  let ?montage = "prefix @ ''.jpg''"
  define a where "a = overlays_added w"
  define n where "n = Suc (length (heap w ref))"
  obtain w1 h0 w2 w3 w4 files w5 prev w6 w7 w8 where
        a1: "py_print ''Processing...'' w = (Inr (), w1)"
    and a2: "overlay_image cfg env (REAL_PATH cfg @ ''/assets/processing.png'') 4 ''RGB'' w1 = (Inr h0, w2)"
    and a3: "os_system ?cmd w2 = (Inr (), w3)"
    and a4: "list_append ref ?montage w3 = (Inr (), w4)"
    and a5: "list_read ref w4 = (Inr files, w5)"
    and a6: "playback_loop cfg env ?montage files h0 w5 = (Inr prev, w6)"
    and a7: "py_print ''All done!'' w6 = (Inr (), w7)"
    and a8: "overlay_image cfg env (REAL_PATH cfg @ ''/assets/all_done_delayed_upload.png'') 5 ''RGB'' w7 = (Inr ol_done, w8)"
    and a9: "remove_overlay prev w8 = (Inr (), w')"
    using assms unfolding playback_screen_def Let_def
    by (auto simp: io_then_Inr io_bind_Inr ret_def)
  have f1: "footprint w1 = footprint w" by (rule quietD [OF quiet_prims(1) a1])
  have f2: "footprint w2 = footprint w1" by (rule quietD [OF quiet_overlay_image a2])
  have h3: "heap w3 = heap w2" using a3 by (auto simp: os_system_def emit_def)
  have h2: "heap w2 = heap w" using f1 f2 by (simp add: footprint_def)
  have fl: "files = heap w ref @ [?montage]"
    using a4 a5 h3 h2 by (auto simp: list_append_def list_read_def)
  then have len: "length files = n" by (simp add: n_def)
  have l1: "ledger w1 = ledger w" by (rule stillD [OF still_prims(1) a1])
  then have o1: "overlays_added w1 = a" "removed (trace w1) = removed (trace w)"
    by (simp_all add: ledger_def a_def)
  have l2: "h0 = overlay_handle env a" "ledger w2 = (Suc a, removed (trace w))"
    using overlay_image_ledger [OF a2] o1 by simp_all
  have l3: "ledger w3 = ledger w2" by (rule stillD [OF still_prims(12) a3])
  have l4: "ledger w4 = ledger w3" by (rule stillD [OF still_prims(15) a4])
  have l5: "ledger w5 = ledger w4" by (rule stillD [OF still_prims(16) a5])
  have o5: "overlays_added w5 = Suc a" "removed (trace w5) = removed (trace w)"
    using l2 l3 l4 l5 by (simp_all add: ledger_def)
  have hs: "h0 # handles env (Suc a) n = handles env a n @ [overlay_handle env (a + n)]"
    using handles_Suc [of env a n] handles_snoc [of env a n] l2(1) by simp
  have l6: "ledger w6 = (Suc a + n, removed (trace w) @ filter (\<lambda>h. h \<noteq> 0 \<and> h \<noteq> - 1) (handles env a n))"
    "prev = overlay_handle env (a + n)"
    using playback_loop_ledger [OF a6] unfolding o5 len hs by simp_all
  have l7: "ledger w7 = ledger w6" by (rule stillD [OF still_prims(1) a7])
  have o7: "overlays_added w7 = Suc a + n"
    "removed (trace w7) = removed (trace w) @ filter (\<lambda>h. h \<noteq> 0 \<and> h \<noteq> - 1) (handles env a n)"
    using l6 l7 by (simp_all add: ledger_def)
  have l8: "ol_done = overlay_handle env (Suc a + n)"
    "ledger w8 = (Suc (Suc a + n), removed (trace w) @ filter (\<lambda>h. h \<noteq> 0 \<and> h \<noteq> - 1) (handles env a n))"
    using overlay_image_ledger [OF a8] o7 by simp_all
  then have o8: "overlays_added w8 = Suc (Suc a + n)"
    "removed (trace w8) = removed (trace w) @ filter (\<lambda>h. h \<noteq> 0 \<and> h \<noteq> - 1) (handles env a n)"
    by (simp_all add: ledger_def)
  have l9: "ledger w' = (Suc (Suc a + n), removed (trace w) @ filter (\<lambda>h. h \<noteq> 0 \<and> h \<noteq> - 1) (handles env a n)
      @ filter (\<lambda>h. h \<noteq> - 1) [overlay_handle env (a + n)])"
    using remove_overlay_ledger [OF a9] o8 l6(2) by simp
  show ?thesis using l9 l8(1) unfolding a_def n_def by simp
qed


lemma session_ledger:
  assumes "session cfg env st w = (Inr out, w')"
  shows "ledger w' =
     (overlays_added w + nat (TOTAL_PICS cfg) * Suc (nat (COUNTDOWN cfg)) + nat (TOTAL_PICS cfg) + 3
        + (if TESTMODE_AUTOPRESS_BUTTON cfg then 0 else 2),
      removed (trace w)
      @ filter (\<lambda>h. h \<noteq> - 1) [var_overlay_2 st, var_overlay_1 st]
      @ filter (\<lambda>h. h \<noteq> - 1)
          (handles env (overlays_added w) (nat (TOTAL_PICS cfg) * Suc (nat (COUNTDOWN cfg))))
      @ filter (\<lambda>h. h \<noteq> 0 \<and> h \<noteq> - 1)
          (handles env (overlays_added w + nat (TOTAL_PICS cfg) * Suc (nat (COUNTDOWN cfg)))
             (Suc (nat (TOTAL_PICS cfg))))
      @ filter (\<lambda>h. h \<noteq> - 1)
          (overlay_handle env (overlays_added w + nat (TOTAL_PICS cfg) * Suc (nat (COUNTDOWN cfg))
                 + nat (TOTAL_PICS cfg) + 1)
           # (if TESTMODE_AUTOPRESS_BUTTON cfg then []
              else [overlay_handle env (overlays_added w + nat (TOTAL_PICS cfg) * Suc (nat (COUNTDOWN cfg))
                 + nat (TOTAL_PICS cfg) + 2)])))"
proof -
  let ?preview = "if PROPOSE_GPU_EFFECTS cfg
              then io_bind perf_counter (\<lambda>tic. preview_window cfg env tic)
              else ret ()"
  let ?tail = "\<lambda>ol_done. if TESTMODE_AUTOPRESS_BUTTON cfg then ret (Break, st)
     else io_bind (overlay_image cfg env (REAL_PATH cfg @ ''/assets/intro_1.png'') 3 ''RGB'') (\<lambda>overlay_1.
          io_bind (overlay_image cfg env (REAL_PATH cfg @ ''/assets/intro_2.png'') 4 ''RGB'') (\<lambda>overlay_2.
          io_then (remove_overlay ol_done)
         (io_then (add_event_detect (CAMERA_BUTTON_PIN cfg))
         (io_then (add_event_detect (EXIT_BUTTON_PIN cfg))
         (io_then (py_print ''Press the button to take a photo'')
                  (ret (Continue, st\<lparr>var_overlay_1 := overlay_1, var_overlay_2 := overlay_2\<rparr>)))))))"
  define a where "a = overlays_added w"
  define n where "n = nat (TOTAL_PICS cfg)"
  define m where "m = n * Suc (nat (COUNTDOWN cfg))"
  define R where "R = removed (trace w) @ filter (\<lambda>h. h \<noteq> - 1) [var_overlay_2 st, var_overlay_1 st]"
  have sp: "still ?preview" by (simp add: still_intros still_preview_window)
  obtain w1 w2 w3 w4 w5 w6 w7 base w8 ref w9 w10 ol_done w11 w12 w13 where
        a1: "py_print ''Button pressed! You folks are in for a treat.'' w = (Inr (), w1)"
    and a2: "remove_overlay (var_overlay_2 st) w1 = (Inr (), w2)"
    and a3: "remove_overlay (var_overlay_1 st) w2 = (Inr (), w3)"
    and a4: "emit (SetImageEffect ''none'') w3 = (Inr (), w4)"
    and a5: "?preview w4 = (Inr (), w5)"
    and a6: "remove_event_detect (CAMERA_BUTTON_PIN cfg) w5 = (Inr (), w6)"
    and a7: "remove_event_detect (EXIT_BUTTON_PIN cfg) w6 = (Inr (), w7)"
    and a8: "get_base_filename_for_images cfg env w7 = (Inr base, w8)"
    and a9: "new_list w8 = (Inr ref, w9)"
    and a10: "capture_photos cfg env base ref w9 = (Inr (), w10)"
    and a11: "playback_screen cfg env base ref w10 = (Inr ol_done, w11)"
    and a12: "sleep 2 w11 = (Inr (), w12)"
    and a13: "archive_photos cfg env ref w12 = (Inr (), w13)"
    and a14: "?tail ol_done w13 = (Inr out, w')"
    using assms unfolding session_def
    by (auto simp: io_then_Inr io_bind_Inr)
  have l1: "ledger w1 = ledger w" by (rule stillD [OF still_prims(1) a1])
  then have o1: "overlays_added w1 = a" "removed (trace w1) = removed (trace w)"
    by (simp_all add: ledger_def a_def)
  have l2: "ledger w2 = (a, removed (trace w) @ filter (\<lambda>h. h \<noteq> - 1) [var_overlay_2 st])"
    using remove_overlay_ledger [OF a2] o1 by simp
  then have o2: "overlays_added w2 = a"
    "removed (trace w2) = removed (trace w) @ filter (\<lambda>h. h \<noteq> - 1) [var_overlay_2 st]"
    by (simp_all add: ledger_def)
  have l3: "ledger w3 = (a, R)"
    using remove_overlay_ledger [OF a3] o2 by (simp add: R_def)
  have l4: "ledger w4 = ledger w3" by (rule stillD [OF still_prims(9) a4])
  have l5: "ledger w5 = ledger w4" by (rule stillD [OF sp a5])
  have l6: "ledger w6 = ledger w5" by (rule stillD [OF still_prims(6) a6])
  have l7: "ledger w7 = ledger w6" by (rule stillD [OF still_prims(6) a7])
  have l8: "ledger w8 = ledger w7" by (rule stillD [OF still_get_base a8])
  have l9: "ledger w9 = ledger w8" by (rule stillD [OF still_prims(14) a9])
  have o9: "overlays_added w9 = a" "removed (trace w9) = R"
    using l3 l4 l5 l6 l7 l8 l9 by (simp_all add: ledger_def)
  have h9: "heap w9 ref = []" using a9 by (auto simp: new_list_def)
  have h10: "length (heap w10 ref) = n"
    using capture_photos_footprint [OF a10] h9 by (simp add: footprint_def n_def)
  have l10: "ledger w10 = (a + m, R @ filter (\<lambda>h. h \<noteq> - 1) (handles env a m))"
    using capture_photos_ledger [OF a10] o9 by (simp add: n_def m_def)
  then have o10: "overlays_added w10 = a + m"
    "removed (trace w10) = R @ filter (\<lambda>h. h \<noteq> - 1) (handles env a m)"
    by (simp_all add: ledger_def)
  define S where "S = R @ filter (\<lambda>h. h \<noteq> - 1) (handles env a m)
      @ filter (\<lambda>h. h \<noteq> 0 \<and> h \<noteq> - 1) (handles env (a + m) (Suc n))
      @ filter (\<lambda>h. h \<noteq> - 1) [overlay_handle env (a + m + n + 1)]"
  have l11: "ledger w11 = (a + m + n + 3, S)" "ol_done = overlay_handle env (a + m + n + 2)"
    using playback_screen_ledger [OF a11] unfolding o10 h10 by (simp_all add: S_def)
  have l12: "ledger w12 = ledger w11" by (rule stillD [OF still_prims(2) a12])
  have l13: "ledger w13 = ledger w12" by (rule stillD [OF still_archive_photos a13])
  have o13: "overlays_added w13 = a + m + n + 3" "removed (trace w13) = S"
    using l11 l12 l13 by (simp_all add: ledger_def)
  have fin: "ledger w' = (a + m + n + 3 + (if TESTMODE_AUTOPRESS_BUTTON cfg then 0 else 2),
      S @ (if TESTMODE_AUTOPRESS_BUTTON cfg then []
           else filter (\<lambda>h. h \<noteq> - 1) [overlay_handle env (a + m + n + 2)]))"
  proof (cases "TESTMODE_AUTOPRESS_BUTTON cfg")
    case True
    with a14 have "w' = w13" by (simp add: ret_def)
    with True o13 show ?thesis by (simp add: ledger_def)
  next
    case False
    with a14 obtain ov1 w14 ov2 w15 w16 w17 w18 w19 where
          b1: "overlay_image cfg env (REAL_PATH cfg @ ''/assets/intro_1.png'') 3 ''RGB'' w13 = (Inr ov1, w14)"
      and b2: "overlay_image cfg env (REAL_PATH cfg @ ''/assets/intro_2.png'') 4 ''RGB'' w14 = (Inr ov2, w15)"
      and b3: "remove_overlay ol_done w15 = (Inr (), w16)"
      and b4: "add_event_detect (CAMERA_BUTTON_PIN cfg) w16 = (Inr (), w17)"
      and b5: "add_event_detect (EXIT_BUTTON_PIN cfg) w17 = (Inr (), w18)"
      and b6: "py_print ''Press the button to take a photo'' w18 = (Inr (), w19)"
      and b7: "w' = w19"
      by (auto simp: io_then_Inr io_bind_Inr ret_def)
    have k1: "ledger w14 = (Suc (a + m + n + 3), S)"
      using overlay_image_ledger [OF b1] o13 by simp
    then have p1: "overlays_added w14 = Suc (a + m + n + 3)" "removed (trace w14) = S"
      by (simp_all add: ledger_def)
    have k2: "ledger w15 = (Suc (Suc (a + m + n + 3)), S)"
      using overlay_image_ledger [OF b2] p1 by simp
    then have p2: "overlays_added w15 = Suc (Suc (a + m + n + 3))" "removed (trace w15) = S"
      by (simp_all add: ledger_def)
    have k3: "ledger w16 = (Suc (Suc (a + m + n + 3)),
        S @ filter (\<lambda>h. h \<noteq> - 1) [overlay_handle env (a + m + n + 2)])"
      using remove_overlay_ledger [OF b3] p2 l11(2) by simp
    have k4: "ledger w17 = ledger w16" by (rule stillD [OF still_prims(5) b4])
    have k5: "ledger w18 = ledger w17" by (rule stillD [OF still_prims(5) b5])
    have k6: "ledger w19 = ledger w18" by (rule stillD [OF still_prims(1) b6])
    show ?thesis using False k3 k4 k5 k6 b7 by simp
  qed
  show ?thesis
    using fin unfolding S_def R_def a_def m_def n_def by simp
qed


lemma filter_handles:
  assumes "\<forall>k. P (overlay_handle env k)"
  shows "filter P (handles env a n) = handles env a n"
  using assms by (simp add: handles_def)

lemma session_demo_overlays:
  "fst (session demo_config demo_env \<lparr>var_i = 0, var_overlay_1 = 1, var_overlay_2 = 2\<rparr> armed_world) =
     Inr (Continue, \<lparr>var_i = 0, var_overlay_1 = 12, var_overlay_2 = 13\<rparr>)
   \<and> removed (trace (snd (session demo_config demo_env \<lparr>var_i = 0, var_overlay_1 = 1, var_overlay_2 = 2\<rparr> armed_world))) =
     [2, 1, 3, 4, 5, 6, 7, 8, 9, 10, 11]"
  by (simp add: session_def capture_photos_def archive_photos_def playback_screen_def
        taking_photo_def prep_for_photo_screen_def exec range_up_def range_down_def upto.simps
        demo_config_fields demo_env_fields armed_world_def)

text \<open>
  C7, as the program has it. \<^verbatim>\<open>remove_overlay\<close> does nothing on the sentinel
  \<^verbatim>\<open>-1\<close> and hands any other value, 0 included, to \<^verbatim>\<open>CAMERA.remove_overlay\<close>;
  \<^verbatim>\<open>main\<close> and \<^verbatim>\<open>taking_photo\<close> pass it every handle they hold. The slideshow loop
  of \<^verbatim>\<open>playback_screen\<close> first asks whether the previous handle is true
  (\<^verbatim>\<open>if prev_overlay:\<close>), so there a handle is removed unless it is 0 or \<^verbatim>\<open>-1\<close>. In a
  session that completes, with \<open>N\<close> photos and a countdown of \<open>K\<close>, the overlays removed
  are, in this order: the two intro overlays, the \<open>N * (K + 1)\<close> get-ready and countdown
  overlays, the processing overlay and the \<open>N\<close> photos of the slideshow (these \<open>N + 1\<close>
  under the truth test), the montage overlay and, unless test mode leaves the loop, the
  finished overlay. When no handle of the driver is 0 or \<^verbatim>\<open>-1\<close>, as with the renderer
  objects of picamera, these are all the overlays the session has added except the ones it
  leaves on the screen: the two new intro overlays, or the finished overlay in test mode
  (the session adds \<open>N * (K + 1) + N + 3\<close> overlays, and the two intro overlays when not
  in test mode).
\<close>

theorem session_removes_overlays:
  assumes "fst (session cfg env st w) = Inr out"
  shows "remove_overlay overlay_id w0 =
           (Inr (), if overlay_id = - 1 then w0 else w0\<lparr>trace := trace w0 @ [RemoveOverlay overlay_id]\<rparr>)
       \<and> (let a = overlays_added w; n = nat (TOTAL_PICS cfg); m = n * Suc (nat (COUNTDOWN cfg));
              last_shown = overlay_handle env (a + m + n + 1);
              ol_done = overlay_handle env (a + m + n + 2)
          in overlays_added (snd (session cfg env st w)) =
               a + m + n + 3 + (if TESTMODE_AUTOPRESS_BUTTON cfg then 0 else 2)
           \<and> removed (trace (snd (session cfg env st w))) =
               removed (trace w)
               @ filter (\<lambda>h. h \<noteq> - 1)
                   ([var_overlay_2 st, var_overlay_1 st] @ map (overlay_handle env) [a..<a + m])
               @ filter (\<lambda>h. h \<noteq> 0 \<and> h \<noteq> - 1) (map (overlay_handle env) [a + m..<a + m + n + 1])
               @ filter (\<lambda>h. h \<noteq> - 1)
                   (last_shown # (if TESTMODE_AUTOPRESS_BUTTON cfg then [] else [ol_done]))
           \<and> ((\<forall>k. overlay_handle env k \<noteq> 0 \<and> overlay_handle env k \<noteq> - 1) \<longrightarrow>
               removed (trace (snd (session cfg env st w))) =
                 removed (trace w)
                 @ filter (\<lambda>h. h \<noteq> - 1) [var_overlay_2 st, var_overlay_1 st]
                 @ map (overlay_handle env)
                     [a..<a + m + n + 2 + (if TESTMODE_AUTOPRESS_BUTTON cfg then 0 else 1)]))"
proof -
  obtain w' where s: "session cfg env st w = (Inr out, w')"
    using assms by (cases "session cfg env st w") simp
  define a where "a = overlays_added w"
  define n where "n = nat (TOTAL_PICS cfg)"
  define m where "m = n * Suc (nat (COUNTDOWN cfg))"
  define R where "R = removed (trace w) @ filter (\<lambda>h. h \<noteq> - 1) [var_overlay_2 st, var_overlay_1 st]"
  define T where "T = (if TESTMODE_AUTOPRESS_BUTTON cfg then [] else [overlay_handle env (a + m + n + 2)])"
  have ro: "remove_overlay overlay_id w0 =
           (Inr (), if overlay_id = - 1 then w0 else w0\<lparr>trace := trace w0 @ [RemoveOverlay overlay_id]\<rparr>)"
    by (simp add: remove_overlay_def emit_def ret_def)
  have oa: "overlays_added w' = a + m + n + 3 + (if TESTMODE_AUTOPRESS_BUTTON cfg then 0 else 2)"
    using session_ledger [OF s] by (simp add: ledger_def a_def n_def m_def)
  have rm: "removed (trace w') = R
      @ filter (\<lambda>h. h \<noteq> - 1) (handles env a m)
      @ filter (\<lambda>h. h \<noteq> 0 \<and> h \<noteq> - 1) (handles env (a + m) (Suc n))
      @ filter (\<lambda>h. h \<noteq> - 1) (overlay_handle env (a + m + n + 1) # T)"
    using session_ledger [OF s] by (simp add: ledger_def a_def n_def m_def R_def T_def)
  have g: "removed (trace w') = R @ handles env a (m + n + 2 + (if TESTMODE_AUTOPRESS_BUTTON cfg then 0 else 1))"
    if ok: "\<forall>k. overlay_handle env k \<noteq> 0 \<and> overlay_handle env k \<noteq> - 1"
  proof -
    have p1: "\<forall>k. overlay_handle env k \<noteq> - 1" using ok by simp
    have f1: "filter (\<lambda>h. h \<noteq> - 1) (handles env a m) = handles env a m"
      by (rule filter_handles) (rule p1)
    have f2: "filter (\<lambda>h. h \<noteq> 0 \<and> h \<noteq> - 1) (handles env (a + m) (Suc n)) = handles env (a + m) (Suc n)"
      by (rule filter_handles) (rule ok)
    have f3: "filter (\<lambda>h. h \<noteq> - 1) (overlay_handle env (a + m + n + 1) # T) = overlay_handle env (a + m + n + 1) # T"
      using p1 by (simp add: T_def)
    have j1: "handles env a m @ handles env (a + m) (Suc n) = handles env a (m + Suc n)"
      by (simp only: handles_add)
    have j2: "handles env a (m + Suc n) @ [overlay_handle env (a + m + n + 1)] = handles env a (Suc (m + Suc n))"
      using handles_snoc [of env a "m + Suc n"] by (simp add: add.assoc)
    have j3: "handles env a (Suc (m + Suc n)) @ T =
        handles env a (m + n + 2 + (if TESTMODE_AUTOPRESS_BUTTON cfg then 0 else 1))"
      using handles_snoc [of env a "Suc (m + Suc n)"] by (simp add: T_def add.assoc)
    have "removed (trace w') = R @ ((handles env a m @ handles env (a + m) (Suc n))
        @ [overlay_handle env (a + m + n + 1)]) @ T"
      unfolding rm f1 f2 f3 by simp
    then show ?thesis unfolding j1 j2 j3 .
  qed
  have w': "snd (session cfg env st w) = w'" using s by simp
  show ?thesis
    unfolding Let_def w' a_def [symmetric] n_def [symmetric] m_def [symmetric]
    using ro oa rm g by (simp add: R_def T_def handles_def add.assoc)
qed

theorem session_removes_overlays_witness:
  "fst (session demo_config demo_env \<lparr>var_i = 0, var_overlay_1 = 1, var_overlay_2 = 2\<rparr> armed_world) =
     Inr (Continue, \<lparr>var_i = 0, var_overlay_1 = 12, var_overlay_2 = 13\<rparr>)
   \<and> (\<forall>k. overlay_handle demo_env k \<noteq> 0 \<and> overlay_handle demo_env k \<noteq> - 1)
   \<and> overlays_added (snd (session demo_config demo_env \<lparr>var_i = 0, var_overlay_1 = 1, var_overlay_2 = 2\<rparr> armed_world)) = 13
   \<and> removed (trace (snd (session demo_config demo_env \<lparr>var_i = 0, var_overlay_1 = 1, var_overlay_2 = 2\<rparr> armed_world))) =
       [2, 1] @ map (overlay_handle demo_env) [2..<11]
   \<and> map (overlay_handle demo_env) [2..<11] = [3, 4, 5, 6, 7, 8, 9, 10, 11]"
proof -
  have run: "fst (session demo_config demo_env \<lparr>var_i = 0, var_overlay_1 = 1, var_overlay_2 = 2\<rparr> armed_world) =
     Inr (Continue, \<lparr>var_i = 0, var_overlay_1 = 12, var_overlay_2 = 13\<rparr>)"
    using session_demo_overlays by simp
  have ok: "\<forall>k. overlay_handle demo_env k \<noteq> 0 \<and> overlay_handle demo_env k \<noteq> - 1"
    by (simp add: demo_env_fields)
  have hs: "map (overlay_handle demo_env) [2..<11] = [3, 4, 5, 6, 7, 8, 9, 10, 11]"
    by (simp add: demo_env_fields upt_rec)
  have nums: "overlays_added armed_world = 2" "trace armed_world = []"
    by (simp_all add: armed_world_def)
  from session_removes_overlays [OF run, of 0 armed_world] ok
  have "overlays_added (snd (session demo_config demo_env \<lparr>var_i = 0, var_overlay_1 = 1, var_overlay_2 = 2\<rparr> armed_world)) = 13
     \<and> removed (trace (snd (session demo_config demo_env \<lparr>var_i = 0, var_overlay_1 = 1, var_overlay_2 = 2\<rparr> armed_world))) =
       [2, 1] @ map (overlay_handle demo_env) [2..<11]"
    by (simp add: Let_def demo_config_fields nums)
  with run ok hs show ?thesis by simp
qed

text \<open>
  The claim as stated (every caller treats handle 0 as a removable handle) fails in the
  slideshow loop: entered with 0 as the previous handle, a round shows the next image and
  holds, and never asks the camera to remove overlay 0, which \<^verbatim>\<open>remove_overlay\<close> itself
  would have removed.
\<close>

theorem slideshow_keeps_overlay_zero:
  "playback_loop demo_config demo_env ''photos/s.jpg'' [''photos/s.jpg''] 0 armed_world =
     (Inr 3, armed_world\<lparr>clock := 7, overlays_added := 3,
        trace := [AddOverlay 3 ''photos/s.jpg'' (96, 48) ''RGB'' (70, 40) 6, Sleep 6]\<rparr>)
   \<and> remove_overlay 0 armed_world = (Inr (), armed_world\<lparr>trace := [RemoveOverlay 0]\<rparr>)"
  by (simp add: exec demo_config_fields demo_env_fields armed_world_def emit_def)

section \<open>The slideshow\<close>

lemma slideshow_view_append [simp]:
  "slideshow_view (xs @ ys) = slideshow_view xs @ slideshow_view ys"
  by (induction xs) simp_all

lemma overlay_image_view:
  assumes "overlay_image cfg env path layer mode w = (Inr h, w')"
  shows "h = overlay_handle env (overlays_added w) \<and> overlays_added w' = Suc (overlays_added w)
       \<and> slideshow_view (trace w') = slideshow_view (trace w) @ [Show path h]"
  using assms
  by (auto simp: overlay_image_def image_open_def io_bind_def ret_def raise_def add_overlay_def
        Let_def split: option.splits)

lemma remove_overlay_view:
  assumes "remove_overlay h w = (r, w')"
  shows "overlays_added w' = overlays_added w
       \<and> slideshow_view (trace w') = slideshow_view (trace w) @ (if h \<noteq> - 1 then [Hide h] else [])"
  using assms by (auto simp: remove_overlay_def emit_def ret_def)

lemma sleep_view:
  assumes "sleep d w = (Inr u, w')"
  shows "overlays_added w' = overlays_added w
       \<and> slideshow_view (trace w') = slideshow_view (trace w) @ [Hold d]"
  using assms by (auto simp: sleep_def raise_def split: if_splits)

lemma print_view:
  assumes "py_print s w = (r, w')"
  shows "overlays_added w' = overlays_added w \<and> slideshow_view (trace w') = slideshow_view (trace w)"
  using assms by (auto simp: py_print_def emit_def)

lemma playback_loop_view:
  assumes "playback_loop cfg env montage files prev w = (Inr last_overlay, w')"
  shows "overlays_added w' = overlays_added w + length files
       \<and> last_overlay = last (prev # map (\<lambda>k. overlay_handle env (overlays_added w + k)) [0..<length files])
       \<and> slideshow_view (trace w') = slideshow_view (trace w) @
           concat (map (\<lambda>(f, p, h).
                [Show f h] @ (if p \<noteq> 0 \<and> p \<noteq> - 1 then [Hide p] else [])
                  @ [Hold (if f = montage then 6 else 2)])
             (zip files (zip (prev # map (\<lambda>k. overlay_handle env (overlays_added w + k)) [0..<length files])
                             (map (\<lambda>k. overlay_handle env (overlays_added w + k)) [0..<length files]))))"
  using assms
proof (induction files arbitrary: prev w)
  case Nil
  then show ?case by (simp add: ret_def)
next
  case (Cons f files)
  obtain this w1 w2 w3 where a1: "overlay_image cfg env f 6 ''RGB'' w = (Inr this, w1)"
    and a2: "(if prev \<noteq> 0 then remove_overlay prev else ret ()) w1 = (Inr (), w2)"
    and a3: "(if f = montage then sleep 6 else sleep 2) w2 = (Inr (), w3)"
    and rest: "playback_loop cfg env montage files this w3 = (Inr last_overlay, w')"
    using Cons.prems by (auto simp: io_bind_Inr io_then_Inr)
  note v1 = overlay_image_view [OF a1]
  have v2: "overlays_added w2 = overlays_added w1
       \<and> slideshow_view (trace w2) = slideshow_view (trace w1) @ (if prev \<noteq> 0 \<and> prev \<noteq> - 1 then [Hide prev] else [])"
    using a2 remove_overlay_view [of prev w1 "Inr ()" w2] by (auto simp: ret_def split: if_splits)
  have v3: "overlays_added w3 = overlays_added w2
       \<and> slideshow_view (trace w3) = slideshow_view (trace w2) @ [Hold (if f = montage then 6 else 2)]"
    using a3 sleep_view [of 6 w2 "()" w3] sleep_view [of 2 w2 "()" w3] by (auto split: if_splits)
  have n3: "overlays_added w3 = Suc (overlays_added w)" using v1 v2 v3 by simp
  have sh: "map (\<lambda>k. overlay_handle env (overlays_added w + k)) [0..<length (f # files)] =
      this # map (\<lambda>k. overlay_handle env (overlays_added w3 + k)) [0..<length files]"
    using v1 n3 by (simp add: upt_conv_Cons map_Suc_upt [symmetric] del: upt_Suc)
  have h1: "this = overlay_handle env (overlays_added w)" using v1 by simp
  have t3: "slideshow_view (trace w3) = slideshow_view (trace w) @ [Show f this]
      @ (if prev \<noteq> 0 \<and> prev \<noteq> - 1 then [Hide prev] else []) @ [Hold (if f = montage then 6 else 2)]"
    using v1 v2 v3 by simp
  note IH = Cons.IH [OF rest]
  show ?case
    unfolding sh using IH t3 n3 by simp
qed

lemma rounds_by_index:
  "map (\<lambda>(f, p, h). g f p h)
       (zip fs (zip (H 0 # map (\<lambda>k. H (Suc k)) [0..<length fs]) (map (\<lambda>k. H (Suc k)) [0..<length fs])))
   = map (\<lambda>k. g (fs ! k) (H k) (H (Suc k))) [0..<length fs]"
proof (rule nth_equalityI)
  show "length (map (\<lambda>(f, p, h). g f p h)
       (zip fs (zip (H 0 # map (\<lambda>k. H (Suc k)) [0..<length fs]) (map (\<lambda>k. H (Suc k)) [0..<length fs]))))
     = length (map (\<lambda>k. g (fs ! k) (H k) (H (Suc k))) [0..<length fs])" by simp
next
  fix i
  assume "i < length (map (\<lambda>(f, p, h). g f p h)
       (zip fs (zip (H 0 # map (\<lambda>k. H (Suc k)) [0..<length fs]) (map (\<lambda>k. H (Suc k)) [0..<length fs]))))"
  then have i: "i < length fs" by simp
  then show "map (\<lambda>(f, p, h). g f p h)
       (zip fs (zip (H 0 # map (\<lambda>k. H (Suc k)) [0..<length fs]) (map (\<lambda>k. H (Suc k)) [0..<length fs]))) ! i
     = map (\<lambda>k. g (fs ! k) (H k) (H (Suc k))) [0..<length fs] ! i"
    by (cases i) (simp_all add: nth_Cons')
qed

lemma playback_screen_view:
  assumes "playback_screen cfg env prefix ref w = (Inr ol_done, w')"
  shows "slideshow_view (trace w') = slideshow_view (trace w) @
      [Show (REAL_PATH cfg @ ''/assets/processing.png'') (overlay_handle env (overlays_added w))] @
      concat (map (\<lambda>k.
          [Show ((heap w ref @ [prefix @ ''.jpg'']) ! k) (overlay_handle env (overlays_added w + Suc k))]
          @ (if overlay_handle env (overlays_added w + k) \<noteq> 0 \<and> overlay_handle env (overlays_added w + k) \<noteq> - 1
             then [Hide (overlay_handle env (overlays_added w + k))] else [])
          @ [Hold (if (heap w ref @ [prefix @ ''.jpg'']) ! k = prefix @ ''.jpg'' then 6 else 2)])
        [0..<length (heap w ref @ [prefix @ ''.jpg''])]) @
      [Show (REAL_PATH cfg @ ''/assets/all_done_delayed_upload.png'')
         (overlay_handle env (overlays_added w + Suc (length (heap w ref @ [prefix @ ''.jpg'']))))] @
      (if overlay_handle env (overlays_added w + length (heap w ref @ [prefix @ ''.jpg''])) \<noteq> - 1
       then [Hide (overlay_handle env (overlays_added w + length (heap w ref @ [prefix @ ''.jpg''])))] else [])"
proof -
  define montage where "montage = prefix @ ''.jpg''"
  define processing where "processing = REAL_PATH cfg @ ''/assets/processing.png''"
  define finished where "finished = REAL_PATH cfg @ ''/assets/all_done_delayed_upload.png''"
  define cmd where "cmd = ''montage '' @ prefix @ ''* -geometry '' @ fmt_half env (PHOTO_W cfg)
                        @ ''x'' @ fmt_half env (PHOTO_H cfg) @ '' '' @ prefix @ ''.jpg''"
  define n where "n = overlays_added w"
  define H where "H = (\<lambda>k. overlay_handle env (n + k))"
  define seq where "seq = heap w ref @ [montage]"
  define g where "g = (\<lambda>f p h. [Show f h] @ (if p \<noteq> 0 \<and> p \<noteq> - 1 then [Hide p] else [])
                  @ [Hold (if f = montage then 6 else (2 :: rat))])"
  obtain w1 h0 w2 w3 w4 files w5 prev w6 w7 w8 where
        a1: "py_print ''Processing...'' w = (Inr (), w1)"
    and a2: "overlay_image cfg env processing 4 ''RGB'' w1 = (Inr h0, w2)"
    and a3: "os_system cmd w2 = (Inr (), w3)"
    and a4: "list_append ref montage w3 = (Inr (), w4)"
    and a5: "list_read ref w4 = (Inr files, w5)"
    and a6: "playback_loop cfg env montage files h0 w5 = (Inr prev, w6)"
    and a7: "py_print ''All done!'' w6 = (Inr (), w7)"
    and a8: "overlay_image cfg env finished 5 ''RGB'' w7 = (Inr ol_done, w8)"
    and a9: "remove_overlay prev w8 = (Inr (), w')"
    using assms unfolding playback_screen_def Let_def montage_def processing_def finished_def cmd_def
    by (auto simp: io_then_Inr io_bind_Inr ret_def)
  note v1 = print_view [OF a1]
  note v2 = overlay_image_view [OF a2]
  have v3: "overlays_added w3 = overlays_added w2 \<and> slideshow_view (trace w3) = slideshow_view (trace w2)
      \<and> heap w3 = heap w2"
    using a3 by (auto simp: os_system_def emit_def)
  have v4: "overlays_added w4 = overlays_added w3 \<and> trace w4 = trace w3
      \<and> heap w4 ref = heap w3 ref @ [montage]"
    using a4 by (auto simp: list_append_def)
  have v5: "w5 = w4 \<and> files = heap w4 ref" using a5 by (auto simp: list_read_def)
  have hp: "heap w2 = heap w"
    using quietD [OF quiet_prims(1) a1] quietD [OF quiet_overlay_image a2] by (simp add: footprint_def)
  have files: "files = seq" using v3 v4 v5 hp by (simp add: seq_def)
  have n5: "overlays_added w5 = Suc n" using v1 v2 v3 v4 v5 by (simp add: n_def)
  have h0: "h0 = H 0" using v1 v2 by (simp add: H_def n_def)
  have t5: "slideshow_view (trace w5) = slideshow_view (trace w) @ [Show processing (H 0)]"
    using v1 v2 v3 v4 v5 h0 by simp
  have hs: "map (\<lambda>k. overlay_handle env (overlays_added w5 + k)) [0..<length seq] = map (\<lambda>k. H (Suc k)) [0..<length seq]"
    by (simp add: n5 H_def)
  from playback_loop_view [OF a6, unfolded files hs h0]
  have n6: "overlays_added w6 = Suc n + length seq"
    and p6: "prev = last (H 0 # map (\<lambda>k. H (Suc k)) [0..<length seq])"
    and t6: "slideshow_view (trace w6) = slideshow_view (trace w5) @
        concat (map (\<lambda>(f, p, h). g f p h)
          (zip seq (zip (H 0 # map (\<lambda>k. H (Suc k)) [0..<length seq]) (map (\<lambda>k. H (Suc k)) [0..<length seq]))))"
    by (simp_all add: n5 g_def)
  have prev: "prev = H (length seq)"
    using p6 by (simp add: seq_def last_map del: upt_Suc)
  note v7 = print_view [OF a7]
  note v8 = overlay_image_view [OF a8]
  have fin: "ol_done = H (Suc (length seq))" using v7 v8 n6 by (simp add: H_def)
  note v9 = remove_overlay_view [OF a9]
  have "slideshow_view (trace w') = slideshow_view (trace w) @ [Show processing (H 0)] @
      concat (map (\<lambda>k. g (seq ! k) (H k) (H (Suc k))) [0..<length seq]) @
      [Show finished (H (Suc (length seq)))] @
      (if H (length seq) \<noteq> - 1 then [Hide (H (length seq))] else [])"
    using v9 v8 v7 t6 t5 prev fin by (simp add: rounds_by_index)
  then show ?thesis
    by (simp add: g_def H_def n_def seq_def montage_def processing_def finished_def)
qed

text \<open>
  C8. A playback that completes shows the processing image, then goes through the photo
  list followed by the montage, in this order; in each round it first shows the image,
  then hides the overlay of the round before (the processing image in the first round)
  unless that handle is 0 or \<^verbatim>\<open>-1\<close>, then holds for 6 seconds if the image is the
  montage and for 2 seconds otherwise; at the end it shows the finished image and hides
  the last overlay of the slideshow. The handle of the \<open>k\<close>-th overlay added since the
  start is \<open>overlay_handle env (overlays_added w + k)\<close>.
\<close>

theorem playback_screen_slideshow:
  assumes "fst (playback_screen cfg env prefix photo_filenames w) = Inr ol_done"
  shows "slideshow_view (trace (snd (playback_screen cfg env prefix photo_filenames w))) =
      slideshow_view (trace w) @
      [Show (REAL_PATH cfg @ ''/assets/processing.png'') (overlay_handle env (overlays_added w))] @
      concat (map (\<lambda>k.
          [Show ((heap w photo_filenames @ [prefix @ ''.jpg'']) ! k) (overlay_handle env (overlays_added w + Suc k))]
          @ (if overlay_handle env (overlays_added w + k) \<noteq> 0 \<and> overlay_handle env (overlays_added w + k) \<noteq> - 1
             then [Hide (overlay_handle env (overlays_added w + k))] else [])
          @ [Hold (if (heap w photo_filenames @ [prefix @ ''.jpg'']) ! k = prefix @ ''.jpg'' then 6 else 2)])
        [0..<length (heap w photo_filenames @ [prefix @ ''.jpg''])]) @
      [Show (REAL_PATH cfg @ ''/assets/all_done_delayed_upload.png'')
         (overlay_handle env (overlays_added w + Suc (length (heap w photo_filenames @ [prefix @ ''.jpg'']))))] @
      (if overlay_handle env (overlays_added w + length (heap w photo_filenames @ [prefix @ ''.jpg''])) \<noteq> - 1
       then [Hide (overlay_handle env (overlays_added w + length (heap w photo_filenames @ [prefix @ ''.jpg''])))] else [])"
proof -
  from assms have "playback_screen cfg env prefix photo_filenames w =
      (Inr ol_done, snd (playback_screen cfg env prefix photo_filenames w))"
    by (simp add: prod_eq_iff)
  then show ?thesis by (rule playback_screen_view)
qed

lemma playback_demo_runs:
  "fst (playback_screen demo_config demo_env ''photos/s'' 0 one_photo_world) = Inr 4"
  by (simp add: playback_screen_def exec demo_config_fields demo_env_fields
        one_photo_world_def initial_world_def)

theorem playback_screen_slideshow_witness:
  "fst (playback_screen demo_config demo_env ''photos/s'' 0 one_photo_world) = Inr 4
   \<and> slideshow_view (trace (snd (playback_screen demo_config demo_env ''photos/s'' 0 one_photo_world))) =
      [Show ''/pb/assets/processing.png'' 1,
       Show ''a.jpg'' 2, Hide 1, Hold 2,
       Show ''photos/s.jpg'' 3, Hide 2, Hold 6,
       Show ''/pb/assets/all_done_delayed_upload.png'' 4, Hide 3]"
proof -
  have w: "heap one_photo_world 0 = [''a.jpg'']" "overlays_added one_photo_world = 0"
    "trace one_photo_world = []"
    by (simp_all add: one_photo_world_def initial_world_def)
  have i: "[0..<2] = [0, Suc 0]" by (simp add: upt_rec)
  show ?thesis
    using playback_screen_slideshow [OF playback_demo_runs] playback_demo_runs
    by (simp add: w i demo_config_fields demo_env_fields)
qed

section \<open>The exit button outside the waiting state\<close>

lemma add_overlay_env:
  "agree_off_gpio env env' \<Longrightarrow> add_overlay env' path pad mode sz layer = add_overlay env path pad mode sz layer"
  by (simp add: fun_eq_iff add_overlay_def agree_off_gpio_def)

lemma image_open_env: "agree_off_gpio env env' \<Longrightarrow> image_open env' path = image_open env path"
  by (simp add: image_open_def agree_off_gpio_def)

lemma overlay_image_env:
  "agree_off_gpio env env' \<Longrightarrow> overlay_image cfg env' path layer mode = overlay_image cfg env path layer mode"
proof -
  assume a: "agree_off_gpio env env'"
  then have h: "float_hsize env' = float_hsize env" by (simp add: agree_off_gpio_def)
  show ?thesis
    by (simp add: overlay_image_def image_open_env [OF a] add_overlay_env [OF a] h Let_def cong: if_cong)
qed

lemma taking_photo_env:
  "agree_off_gpio env env' \<Longrightarrow> taking_photo cfg env' n prefix = taking_photo cfg env n prefix"
  by (simp add: taking_photo_def overlay_image_env)

lemma capture_photos_env:
  "agree_off_gpio env env' \<Longrightarrow> capture_photos cfg env' prefix ref = capture_photos cfg env prefix ref"
  by (simp add: capture_photos_def prep_for_photo_screen_def taking_photo_env overlay_image_env)

lemma playback_loop_env:
  "agree_off_gpio env env' \<Longrightarrow>
   playback_loop cfg env' montage files prev = playback_loop cfg env montage files prev"
  by (induction files arbitrary: prev) (simp_all add: overlay_image_env)

lemma playback_screen_env:
  "agree_off_gpio env env' \<Longrightarrow> playback_screen cfg env' prefix ref = playback_screen cfg env prefix ref"
proof -
  assume a: "agree_off_gpio env env'"
  then have h: "fmt_half env' = fmt_half env" by (simp add: agree_off_gpio_def)
  show ?thesis
    by (simp add: playback_screen_def playback_loop_env [OF a] overlay_image_env [OF a] h)
qed

lemma archive_photos_env:
  "agree_off_gpio env env' \<Longrightarrow> archive_photos cfg env' ref = archive_photos cfg env ref"
  by (simp add: archive_photos_def copy2_def agree_off_gpio_def)

lemma get_base_env:
  "agree_off_gpio env env' \<Longrightarrow> get_base_filename_for_images cfg env' = get_base_filename_for_images cfg env"
  by (simp add: get_base_filename_for_images_def fun_eq_iff agree_off_gpio_def)

lemma event_detected_env: "agree_on_pin pin env env' \<Longrightarrow> event_detected env' pin = event_detected env pin"
  by (auto simp: fun_eq_iff event_detected_def agree_on_pin_def split: option.splits)

lemma gpio_input_env: "agree_on_pin pin env env' \<Longrightarrow> gpio_input env' pin = gpio_input env pin"
  by (simp add: fun_eq_iff gpio_input_def agree_on_pin_def)

lemma poll_button_env: "agree_on_pin pin env env' \<Longrightarrow> poll_button cfg env' pin = poll_button cfg env pin"
  by (simp add: poll_button_def event_detected_env gpio_input_env cong: if_cong)

lemma preview_window_env:
  assumes "agree_on_pin (CAMERA_BUTTON_PIN cfg) env env'"
  shows "preview_window cfg env' tic w = preview_window cfg env tic w"
  using assms
proof (induction cfg env tic w rule: preview_window.induct)
  case (1 cfg env tic w)
  have p: "poll_button cfg env' (CAMERA_BUTTON_PIN cfg) = poll_button cfg env (CAMERA_BUTTON_PIN cfg)"
    by (rule poll_button_env [OF "1.prems"])
  show ?case
  proof (cases "clock w - tic < 2")
    case False
    then show ?thesis
      by (simp add: preview_window.simps [of cfg env tic w] preview_window.simps [of cfg env' tic w])
  next
    case True
    obtain r w1 where pw: "poll_button cfg env (CAMERA_BUTTON_PIN cfg) w = (r, w1)"
      by (cases "poll_button cfg env (CAMERA_BUTTON_PIN cfg) w")
    show ?thesis
    proof (cases r)
      case (Inl e)
      with True pw p show ?thesis
        by (simp add: preview_window.simps [of cfg env tic w] preview_window.simps [of cfg env' tic w])
    next
      case (Inr b)
      show ?thesis
      proof (cases "b = Some True")
        case b: True
        with True pw p Inr show ?thesis
          by (simp add: preview_window.simps [of cfg env tic w] preview_window.simps [of cfg env' tic w])
      next
        case b: False
        obtain r2 w2 where s: "sleep (1 / 10) w1 = (r2, w2)" by (cases "sleep (1 / 10) w1")
        show ?thesis
        proof (cases r2)
          case (Inl e)
          with True pw p \<open>r = Inr b\<close> b s show ?thesis
            by (simp add: preview_window.simps [of cfg env tic w] preview_window.simps [of cfg env' tic w])
        next
          case (Inr u)
          have "preview_window cfg env' tic w2 = preview_window cfg env tic w2"
            using "1.IH" [OF True pw [symmetric] \<open>r = Inr b\<close> b s [symmetric] Inr "1.prems"] .
          with True pw p \<open>r = Inr b\<close> b s Inr show ?thesis
            by (simp add: preview_window.simps [of cfg env tic w] preview_window.simps [of cfg env' tic w])
        qed
      qed
    qed
  qed
qed

lemma session_env:
  assumes "agree_off_gpio env env'" and "agree_on_pin (CAMERA_BUTTON_PIN cfg) env env'"
  shows "session cfg env' st = session cfg env st"
proof -
  have pv: "preview_window cfg env' = preview_window cfg env"
    using preview_window_env [OF assms(2)] by (simp add: fun_eq_iff)
  show ?thesis
    by (simp add: session_def pv get_base_env [OF assms(1)] capture_photos_env [OF assms(1)]
          playback_screen_env [OF assms(1)] archive_photos_env [OF assms(1)]
          overlay_image_env [OF assms(1)] cong: if_cong)
qed

lemma session_outcome:
  assumes "session cfg env st w = (Inr (c, st'), w')"
  shows "c = (if TESTMODE_AUTOPRESS_BUTTON cfg then Break else Continue)
       \<and> (c = Continue \<longrightarrow>
            detect w' (CAMERA_BUTTON_PIN cfg) = Some (clock w')
          \<and> detect w' (EXIT_BUTTON_PIN cfg) = Some (clock w'))"
proof -
  let ?tail = "\<lambda>ol_done. if TESTMODE_AUTOPRESS_BUTTON cfg then ret (Break, st)
     else io_bind (overlay_image cfg env (REAL_PATH cfg @ ''/assets/intro_1.png'') 3 ''RGB'') (\<lambda>overlay_1.
          io_bind (overlay_image cfg env (REAL_PATH cfg @ ''/assets/intro_2.png'') 4 ''RGB'') (\<lambda>overlay_2.
          io_then (remove_overlay ol_done)
         (io_then (add_event_detect (CAMERA_BUTTON_PIN cfg))
         (io_then (add_event_detect (EXIT_BUTTON_PIN cfg))
         (io_then (py_print ''Press the button to take a photo'')
                  (ret (Continue, st\<lparr>var_overlay_1 := overlay_1, var_overlay_2 := overlay_2\<rparr>)))))))"
  obtain ol_done w13 where a14: "?tail ol_done w13 = (Inr (c, st'), w')"
    using assms unfolding session_def
    by (auto simp: io_then_Inr io_bind_Inr)
  show ?thesis
  proof (cases "TESTMODE_AUTOPRESS_BUTTON cfg")
    case True
    with a14 show ?thesis by (simp add: ret_def)
  next
    case False
    with a14 obtain wa wb wc where
          b1: "add_event_detect (CAMERA_BUTTON_PIN cfg) wa = (Inr (), wb)"
      and b2: "add_event_detect (EXIT_BUTTON_PIN cfg) wb = (Inr (), wc)"
      and b3: "py_print ''Press the button to take a photo'' wc = (Inr (), w')"
      and c: "c = Continue"
      by (auto simp: io_then_Inr io_bind_Inr ret_def)
    from b1 have d1: "detect wb (CAMERA_BUTTON_PIN cfg) = Some (clock wb)"
      by (auto simp: add_event_detect_def split: option.splits)
    from b2 have d2: "detect wc = (detect wb)(EXIT_BUTTON_PIN cfg \<mapsto> clock wb)" "clock wc = clock wb"
      by (auto simp: add_event_detect_def split: option.splits)
    from b3 have d3: "detect w' = detect wc" "clock w' = clock wc"
      by (auto simp: py_print_def emit_def)
    from d1 d2 d3 c False show ?thesis by simp
  qed
qed

lemma poll_button_other_pin:
  assumes "poll_button cfg env pin w = (r, w1)" and "pin \<noteq> other"
  shows "detect w1 other = detect w other"
  using assms
  by (auto simp: poll_button_def io_bind_def io_then_def event_detected_def sleep_def raise_def
        ret_def gpio_input_def Let_def split: option.splits if_splits sum.splits prod.splits)

lemma poll_button_no_new_edge:
  assumes "detect w pin = Some t" and "\<forall>e \<in> set (gpio_edges env pin). e \<le> t"
  shows "fst (poll_button cfg env pin w) = Inr None"
proof -
  have "\<not> list_ex (\<lambda>e. t < e \<and> e \<le> clock w) (gpio_edges env pin)"
    using assms(2) by (auto simp: list_ex_iff)
  then show ?thesis
    using assms(1) by (simp add: poll_button_def io_bind_def event_detected_def ret_def Let_def)
qed

lemma blink_not_return: "fst (blink st w) \<noteq> Inr (Return, st'')"
  by (simp add: blink_def Let_def io_bind_def io_then_def emit_def ret_def sleep_def)

lemma session_not_return: "fst (session cfg env st w) \<noteq> Inr (Return, st'')"
proof
  assume "fst (session cfg env st w) = Inr (Return, st'')"
  then have "session cfg env st w = (Inr (Return, st''), snd (session cfg env st w))"
    by (simp add: prod_eq_iff)
  from session_outcome [OF this] show False by (simp split: if_splits)
qed

lemma next_round_no_return:
  assumes "CAMERA_BUTTON_PIN cfg \<noteq> EXIT_BUTTON_PIN cfg"
      and "detect w (EXIT_BUTTON_PIN cfg) = Some t"
      and "\<forall>e \<in> set (gpio_edges env (EXIT_BUTTON_PIN cfg)). e \<le> t"
  shows "fst (loop_iteration cfg env st w) \<noteq> Inr (Return, st'')"
proof -
  obtain r1 w1 where p1: "poll_button cfg env (CAMERA_BUTTON_PIN cfg) w = (r1, w1)"
    by (cases "poll_button cfg env (CAMERA_BUTTON_PIN cfg) w")
  show ?thesis
  proof (cases r1)
    case (Inl e)
    with p1 show ?thesis by (simp add: loop_iteration_def io_bind_fail)
  next
    case (Inr photo)
    have d1: "detect w1 (EXIT_BUTTON_PIN cfg) = Some t"
      using poll_button_other_pin [OF p1 assms(1)] assms(2) by simp
    obtain r2 w2 where p2: "poll_button cfg env (EXIT_BUTTON_PIN cfg) w1 = (r2, w2)"
      by (cases "poll_button cfg env (EXIT_BUTTON_PIN cfg) w1")
    from poll_button_no_new_edge [OF d1 assms(3), of cfg] p2 have r2: "r2 = Inr None" by simp
    have "loop_iteration cfg env st w =
        (let photo_button_is_pressed = (if TESTMODE_AUTOPRESS_BUTTON cfg then Some True else photo)
         in if photo_button_is_pressed = None then blink st else session cfg env st) w2"
      using p1 Inr p2 r2 by (simp add: loop_iteration_def io_bind_run)
    then show ?thesis
      using blink_not_return [of st w2 st''] session_not_return [of cfg env st w2 st'']
      by (simp add: Let_def split: if_splits)
  qed
qed

lemma exec_poll:
  "io_bind (event_detected env pin) f w =
     (case detect w pin of
        None \<Rightarrow> f False (w\<lparr>trace := trace w @ [EventDetected pin False]\<rparr>)
      | Some t \<Rightarrow> f (list_ex (\<lambda>e. t < e \<and> e \<le> clock w) (gpio_edges env pin))
          (w\<lparr>detect := (detect w)(pin \<mapsto> clock w),
             trace := trace w @ [EventDetected pin (list_ex (\<lambda>e. t < e \<and> e \<le> clock w) (gpio_edges env pin))]\<rparr>))"
  "io_bind (gpio_input env pin) g w =
     g (gpio_level env pin (clock w)) (w\<lparr>trace := trace w @ [Input pin (gpio_level env pin (clock w))]\<rparr>)"
  by (simp_all add: io_bind_def event_detected_def gpio_input_def Let_def split: option.splits)

lemma exec_preview:
  "io_bind (preview_window cfg env tic) f w =
     (case preview_window cfg env tic w of (Inl e, w') \<Rightarrow> (Inl e, w') | (Inr x, w') \<Rightarrow> f x w')"
  by (simp add: io_bind_def)

lemma sleep_run:
  "sleep d w = (if d < 0 then (Inl ValueError, w)
                else (Inr (), w\<lparr>clock := clock w + d, trace := trace w @ [Sleep d]\<rparr>))"
  by (simp add: sleep_def raise_def)

lemma preview_demo_runs:
  "fst (session preview_config demo_env \<lparr>var_i = 0, var_overlay_1 = 1, var_overlay_2 = 2\<rparr> armed_world) =
     Inr (Continue, \<lparr>var_i = 0, var_overlay_1 = 12, var_overlay_2 = 13\<rparr>)"
  by (simp add: session_def capture_photos_def archive_photos_def playback_screen_def
        taking_photo_def prep_for_photo_screen_def exec exec_poll exec_preview preview_window.simps
        poll_button_def sleep_run emit_def
        range_up_def range_down_def upto.simps
        preview_config_def demo_config_fields demo_env_fields armed_world_def)

text \<open>
  C10. From the moment the button press is acknowledged, a round of the loop asks the
  GPIO driver about the capture button only: two environments that agree on that pin and
  on everything that is not a pin give the same result and the same world, whatever the
  exit button does in either. The round is never left by \<^verbatim>\<open>return\<close>: when it
  completes it ends by \<^verbatim>\<open>break\<close> exactly in test mode, and otherwise goes on to the
  next round of waiting with the edge detection of both pins armed and their latches
  cleared at that instant. In particular, where the two buttons are on different pins and
  every press of the exit button came before that instant, the next round does not end in
  \<^verbatim>\<open>return\<close> either.
\<close>

theorem exit_button_ignored_during_session:
  assumes "agree_off_gpio env env'"
      and "agree_on_pin (CAMERA_BUTTON_PIN cfg) env env'"
      and "fst (session cfg env st w) = Inr (c, st')"
  shows "session cfg env' st w = session cfg env st w
       \<and> c = (if TESTMODE_AUTOPRESS_BUTTON cfg then Break else Continue)
       \<and> (c = Continue \<longrightarrow>
            detect (snd (session cfg env st w)) (CAMERA_BUTTON_PIN cfg) = Some (clock (snd (session cfg env st w)))
          \<and> detect (snd (session cfg env st w)) (EXIT_BUTTON_PIN cfg) = Some (clock (snd (session cfg env st w))))
       \<and> (c = Continue \<and> CAMERA_BUTTON_PIN cfg \<noteq> EXIT_BUTTON_PIN cfg
            \<and> (\<forall>e \<in> set (gpio_edges env' (EXIT_BUTTON_PIN cfg)). e \<le> clock (snd (session cfg env st w))) \<longrightarrow>
            (\<forall>st''. fst (loop_iteration cfg env' st' (snd (session cfg env st w))) \<noteq> Inr (Return, st'')))"
proof -
  from assms(3) have run: "session cfg env st w = (Inr (c, st'), snd (session cfg env st w))"
    by (simp add: prod_eq_iff)
  from session_env [OF assms(1,2)] have same: "session cfg env' st w = session cfg env st w" by simp
  note out = session_outcome [OF run]
  have next_round: "fst (loop_iteration cfg env' st' (snd (session cfg env st w))) \<noteq> Inr (Return, st'')"
    if "c = Continue" and "CAMERA_BUTTON_PIN cfg \<noteq> EXIT_BUTTON_PIN cfg"
      and "\<forall>e \<in> set (gpio_edges env' (EXIT_BUTTON_PIN cfg)). e \<le> clock (snd (session cfg env st w))"
    for st''
  proof -
    from out that(1)
    have "detect (snd (session cfg env st w)) (EXIT_BUTTON_PIN cfg) = Some (clock (snd (session cfg env st w)))"
      by simp
    from next_round_no_return [OF that(2) this that(3)] show ?thesis .
  qed
  from same out next_round show ?thesis by blast
qed

lemma preview_demo_clock:
  "clock (snd (session preview_config demo_env \<lparr>var_i = 0, var_overlay_1 = 1, var_overlay_2 = 2\<rparr> armed_world)) = 20"
  by (simp add: session_def capture_photos_def archive_photos_def playback_screen_def
        taking_photo_def prep_for_photo_screen_def exec exec_poll exec_preview preview_window.simps
        poll_button_def sleep_run emit_def
        range_up_def range_down_def upto.simps
        preview_config_def demo_config_fields demo_env_fields armed_world_def)

theorem exit_button_ignored_during_session_witness:
  "agree_off_gpio demo_env exit_pressed_env
   \<and> agree_on_pin (CAMERA_BUTTON_PIN preview_config) demo_env exit_pressed_env
   \<and> gpio_edges exit_pressed_env (EXIT_BUTTON_PIN preview_config) = [5 / 4, 6, 15]
   \<and> fst (session preview_config demo_env \<lparr>var_i = 0, var_overlay_1 = 1, var_overlay_2 = 2\<rparr> armed_world) =
       Inr (Continue, \<lparr>var_i = 0, var_overlay_1 = 12, var_overlay_2 = 13\<rparr>)
   \<and> clock (snd (session preview_config demo_env \<lparr>var_i = 0, var_overlay_1 = 1, var_overlay_2 = 2\<rparr> armed_world)) = 20
   \<and> session preview_config exit_pressed_env \<lparr>var_i = 0, var_overlay_1 = 1, var_overlay_2 = 2\<rparr> armed_world =
       session preview_config demo_env \<lparr>var_i = 0, var_overlay_1 = 1, var_overlay_2 = 2\<rparr> armed_world
   \<and> detect (snd (session preview_config demo_env \<lparr>var_i = 0, var_overlay_1 = 1, var_overlay_2 = 2\<rparr> armed_world))
         (EXIT_BUTTON_PIN preview_config) = Some 20
   \<and> (\<forall>st''. fst (loop_iteration preview_config exit_pressed_env
                     \<lparr>var_i = 0, var_overlay_1 = 12, var_overlay_2 = 13\<rparr>
                     (snd (session preview_config demo_env \<lparr>var_i = 0, var_overlay_1 = 1, var_overlay_2 = 2\<rparr> armed_world)))
              \<noteq> Inr (Return, st''))"
proof -
  have a: "agree_off_gpio demo_env exit_pressed_env"
    by (simp add: agree_off_gpio_def exit_pressed_env_def)
  have b: "agree_on_pin (CAMERA_BUTTON_PIN preview_config) demo_env exit_pressed_env"
    by (simp add: agree_on_pin_def exit_pressed_env_def preview_config_def demo_config_fields)
  have e: "gpio_edges exit_pressed_env (EXIT_BUTTON_PIN preview_config) = [5 / 4, 6, 15]"
    by (simp add: exit_pressed_env_def preview_config_def demo_config_fields)
  have p: "CAMERA_BUTTON_PIN preview_config \<noteq> EXIT_BUTTON_PIN preview_config"
    by (simp add: preview_config_def demo_config_fields)
  note k = preview_demo_clock
  have late: "\<forall>e \<in> set (gpio_edges exit_pressed_env (EXIT_BUTTON_PIN preview_config)).
      e \<le> clock (snd (session preview_config demo_env \<lparr>var_i = 0, var_overlay_1 = 1, var_overlay_2 = 2\<rparr> armed_world))"
    by (simp add: e k)
  show ?thesis
    using exit_button_ignored_during_session [OF a b preview_demo_runs] a b e p k late preview_demo_runs
    by simp
qed

end
